theory Spec2Isabelle
  imports Main "HOL-Library.Word"
begin

unbundle bit_operations_syntax

section \<open>The SSH command of sshwifty (application/commands/ssh.go)\<close>

text \<open>
  A shallow embedding of the session object \<open>sshClient\<close>: its fields, the read-timeout
  retry hook of the connection wrapper, the bootup decoder, the local frame handler and
  the lifecycle operations. Go's mutation of \<open>d\<close> is explicit state passing; a call
  that may block (a channel operation, a network read, a wait group) or panic returns
  an \<open>outcome\<close>.
\<close>

subsection \<open>Constants\<close>

type_synonym byte = "8 word"

text \<open>Server -> client signal consts (ssh.go 38-46).\<close>

definition SSHServerRemoteStdOut :: byte where "SSHServerRemoteStdOut = 0x00"
definition SSHServerRemoteStdErr :: byte where "SSHServerRemoteStdErr = 0x01"
definition SSHServerHookOutputBeforeConnecting :: byte where
  "SSHServerHookOutputBeforeConnecting = 0x02"
definition SSHServerConnectFailed :: byte where "SSHServerConnectFailed = 0x03"
definition SSHServerConnectSucceed :: byte where "SSHServerConnectSucceed = 0x04"
definition SSHServerConnectVerifyFingerprint :: byte where
  "SSHServerConnectVerifyFingerprint = 0x05"
definition SSHServerConnectRequestCredential :: byte where
  "SSHServerConnectRequestCredential = 0x06"

text \<open>Client -> server signal consts (ssh.go 49-54).\<close>

definition SSHClientStdIn :: byte where "SSHClientStdIn = 0x00"
definition SSHClientResize :: byte where "SSHClientResize = 0x01"
definition SSHClientRespondFingerprint :: byte where "SSHClientRespondFingerprint = 0x02"
definition SSHClientRespondCredential :: byte where "SSHClientRespondCredential = 0x03"

definition sshCredentialMaxSize :: nat where "sshCredentialMaxSize = 4096"

text \<open>Error codes (ssh.go 61-65) and auth methods (ssh.go 68-72).\<close>

definition SSHRequestErrorBadUserName :: byte where "SSHRequestErrorBadUserName = 0x01"
definition SSHRequestErrorBadRemoteAddress :: byte where
  "SSHRequestErrorBadRemoteAddress = 0x02"
definition SSHRequestErrorBadAuthMethod :: byte where "SSHRequestErrorBadAuthMethod = 0x03"

definition SSHAuthMethodNone :: byte where "SSHAuthMethodNone = 0x00"
definition SSHAuthMethodPassphrase :: byte where "SSHAuthMethodPassphrase = 0x01"
definition SSHAuthMethodPrivateKey :: byte where "SSHAuthMethodPrivateKey = 0x02"

subsection \<open>Errors\<close>

text \<open>
  The error values of ssh.go 77-107, the two errors of Go's \<open>io\<close> package that
  \<open>io.ReadFull\<close> produces, and \<open>ErrExternal\<close> for an error handed back by a
  collaborator (the frame reader, the stream responder, a parser, the remote).
\<close>

datatype error =
    ErrSSHAuthCancelled
  | ErrSSHInvalidAuthMethod
  | ErrSSHInvalidAddress
  | ErrSSHRemoteFingerprintVerificationCancelled
  | ErrSSHRemoteFingerprintRefused
  | ErrSSHRemoteConnUnavailable
  | ErrSSHUnexpectedFingerprintVerificationRespond
  | ErrSSHUnexpectedCredentialDataRespond
  | ErrSSHCredentialDataTooLarge
  | ErrSSHUnknownClientSignal
  | ErrEOF
  | ErrUnexpectedEOF
  | ErrExternal string

fun errorText :: "error \<Rightarrow> string" where
  "errorText ErrSSHAuthCancelled = ''authentication has been cancelled''"
| "errorText ErrSSHInvalidAuthMethod = ''invalid auth method''"
| "errorText ErrSSHInvalidAddress = ''invalid address''"
| "errorText ErrSSHRemoteFingerprintVerificationCancelled =
     ''server Fingerprint verification process has been cancelled''"
| "errorText ErrSSHRemoteFingerprintRefused = ''server Fingerprint has been refused''"
| "errorText ErrSSHRemoteConnUnavailable = ''remote SSH connection is unavailable''"
| "errorText ErrSSHUnexpectedFingerprintVerificationRespond =
     ''unexpected fingerprint verification respond''"
| "errorText ErrSSHUnexpectedCredentialDataRespond = ''unexpected credential data respond''"
| "errorText ErrSSHCredentialDataTooLarge = ''credential was too large''"
| "errorText ErrSSHUnknownClientSignal = ''unknown client signal''"
| "errorText ErrEOF = ''EOF''"
| "errorText ErrUnexpectedEOF = ''unexpected EOF''"
| "errorText (ErrExternal m) = m"

text \<open>
  What a call does: it returns a value, it blocks for ever (nothing it waits for
  arrives), or it panics (Go's run-time panic: a send on or a close of a closed
  channel, a slice beyond the capacity).
\<close>

datatype 'a outcome = Returned 'a | Blocked | Panic

subsection \<open>Channels\<close>

text \<open>
  A buffered Go channel: the values waiting in it, its capacity, whether it has been
  closed; and, for the claims about the lifetime of a session, the history of every
  value sent on it and the number of times it was closed.
\<close>

record 'a chan =
  chBuf :: "'a list"
  chCap :: nat
  chClosed :: bool
  chSent :: "'a list"
  chCloses :: nat

definition make_chan :: "nat \<Rightarrow> 'a chan" where
  "make_chan n = \<lparr>chBuf = [], chCap = n, chClosed = False, chSent = [], chCloses = 0\<rparr>"

text \<open>\<open>c <- v\<close>: panics on a closed channel, blocks on a full one.\<close>

definition chan_send :: "'a chan \<Rightarrow> 'a \<Rightarrow> 'a chan outcome" where
  "chan_send c v =
     (if chClosed c then Panic
      else if chCap c \<le> length (chBuf c) then Blocked
      else Returned (c\<lparr>chBuf := chBuf c @ [v], chSent := chSent c @ [v]\<rparr>))"

text \<open>\<open>close(c)\<close>: panics on a closed channel.\<close>

definition chan_close :: "'a chan \<Rightarrow> 'a chan outcome" where
  "chan_close c =
     (if chClosed c then Panic
      else Returned (c\<lparr>chClosed := True, chCloses := Suc (chCloses c)\<rparr>))"

text \<open>
  \<open>v, ok := <-c\<close>: a waiting value is taken (\<open>Some v\<close>, ok); an empty closed channel
  gives \<open>None\<close> (not ok); an empty open channel blocks.
\<close>

definition chan_recv :: "'a chan \<Rightarrow> ('a option \<times> 'a chan) outcome" where
  "chan_recv c =
     (case chBuf c of
        v # rest \<Rightarrow> Returned (Some v, c\<lparr>chBuf := rest\<rparr>)
      | [] \<Rightarrow> if chClosed c then Returned (None, c) else Blocked)"

subsection \<open>Collaborators held by the session\<close>

text \<open>
  Modelled from the spec: \<open>command.StreamResponder\<close> is not part of the source at hand.
  \<open>SendManual(marker, buf)\<close> emits one frame and \<open>HeaderSize()\<close> is the constant
  prefix the multiplexer reserves (spec section 6). The responder is the list of frames
  emitted so far, its header size, and the results its coming \<open>SendManual\<close> calls
  will have (none left: the call succeeds).
\<close>

record StreamResponder =
  HeaderSize :: nat
  wFrames :: "(byte \<times> byte list) list"
  wSignals :: "string list"
  wResults :: "error option list"

definition SendManual ::
  "StreamResponder \<Rightarrow> byte \<Rightarrow> byte list \<Rightarrow> error option \<times> StreamResponder" where
  "SendManual w m b =
     (case wResults w of
        [] \<Rightarrow> (None, w\<lparr>wFrames := wFrames w @ [(m, b)]\<rparr>)
      | None # rs \<Rightarrow> (None, w\<lparr>wFrames := wFrames w @ [(m, b)], wResults := rs\<rparr>)
      | Some e # rs \<Rightarrow> (Some e, w\<lparr>wResults := rs\<rparr>))"

text \<open>
  The remote handle \<open>sshRemoteConn\<close> (ssh.go 142-150): three references, each nil or
  not. What stands behind them is the one SSH connection of the session, \<open>remoteIO\<close>:
  the chunks written to the remote stdin, the window changes requested, how often the
  closer ran, and the results the coming writes and window changes will have (none
  left: success).
\<close>

record sshRemoteConn =
  writer :: bool
  closer :: bool
  session :: bool

definition isValid :: "sshRemoteConn \<Rightarrow> bool" where
  "isValid s = (writer s \<and> closer s \<and> session s)"

definition nilRemoteConn :: sshRemoteConn where
  "nilRemoteConn = \<lparr>writer = False, closer = False, session = False\<rparr>"

definition liveRemoteConn :: sshRemoteConn where
  "liveRemoteConn = \<lparr>writer = True, closer = True, session = True\<rparr>"

record remoteIO =
  stdinWrites :: "byte list list"
  writeResults :: "error option list"
  closerCalls :: nat
  windowChanges :: "(int \<times> int) list"
  windowChangeResults :: "error option list"

definition newRemoteIO :: remoteIO where
  "newRemoteIO = \<lparr>stdinWrites = [], writeResults = [], closerCalls = 0,
     windowChanges = [], windowChangeResults = []\<rparr>"

text \<open>The tasks a session starts: the remote task and its stderr pump.\<close>

datatype task = NotStarted | Running | Exited

text \<open>
  The builders of \<open>buildAuthMethod\<close> (ssh.go 262-327), by the auth methods they
  build: none, a password callback, a public-keys callback.
\<close>

datatype sshAuthMethodBuilder = BuildNone | BuildPassphrase | BuildPrivateKey

text \<open>What the handlers log with \<open>d.l.Debug\<close> (ssh.go 627, 655).\<close>

datatype logEntry =
    FailedToWriteDataToRemote error
  | FailedToResize int int error

subsection \<open>The session\<close>

text \<open>
  The struct \<open>sshClient\<close> (ssh.go 152-171). \<open>dw\<close> and \<open>dl\<close> are the fields \<open>w\<close>
  and \<open>l\<close>; the logger is the list of messages logged. \<open>baseCtx\<close> is whether the
  context has been cancelled, \<open>baseCtxCancel\<close> whether the \<open>sync.OnceFunc\<close> around
  the cancel function has fired, \<open>ctxCancels\<close> how often the cancel function itself
  ran. \<open>remoteCloseWait\<close> is the counter of the wait group. \<open>rio\<close>, \<open>remoteTask\<close>
  (with \<open>remoteArgs\<close>, the arguments it was started with) and \<open>stderrPump\<close> are
  what the session's goroutines and its SSH connection are doing.
\<close>

record sshClient =
  dw :: StreamResponder
  dl :: "logEntry list"
  baseCtx :: bool
  baseCtxCancel :: bool
  ctxCancels :: nat
  remoteCloseWait :: nat
  remoteReadTimeoutRetry :: bool
  remoteReadForceRetryNextTimeout :: bool
  credentialReceive :: "byte list chan"
  credentialProcessed :: bool
  credentialReceiveClosed :: bool
  fingerprintVerifyResultReceive :: "bool chan"
  fingerprintProcessed :: bool
  fingerprintVerifyResultReceiveClosed :: bool
  remoteConnReceive :: "sshRemoteConn chan"
  remoteConn :: sshRemoteConn
  rio :: remoteIO
  remoteTask :: task
  remoteArgs :: "(byte list \<times> byte list \<times> sshAuthMethodBuilder) option"
  stderrPump :: task

text \<open>\<open>newSSH\<close> (ssh.go 173-200), for a responder \<open>w\<close>.\<close>

definition newSSH :: "StreamResponder \<Rightarrow> sshClient" where
  "newSSH w = \<lparr>
     dw = w,
     dl = [],
     baseCtx = False,
     baseCtxCancel = False,
     ctxCancels = 0,
     remoteCloseWait = 0,
     remoteReadTimeoutRetry = False,
     remoteReadForceRetryNextTimeout = False,
     credentialReceive = make_chan 1,
     credentialProcessed = False,
     credentialReceiveClosed = False,
     fingerprintVerifyResultReceive = make_chan 1,
     fingerprintProcessed = False,
     fingerprintVerifyResultReceiveClosed = False,
     remoteConnReceive = make_chan 1,
     remoteConn = nilRemoteConn,
     rio = newRemoteIO,
     remoteTask = NotStarted,
     remoteArgs = None,
     stderrPump = NotStarted\<rparr>"

text \<open>
  \<open>d.baseCtxCancel()\<close>: \<open>sync.OnceFunc(ctxCancel)\<close> runs the cancel function on its
  first call only.
\<close>

definition callBaseCtxCancel :: "sshClient \<Rightarrow> sshClient" where
  "callBaseCtxCancel d =
     (if baseCtxCancel d then d
      else d\<lparr>baseCtxCancel := True, baseCtx := True, ctxCancels := Suc (ctxCancels d)\<rparr>)"

subsection \<open>The read-timeout retry discipline\<close>

text \<open>
  The connection wrapper \<open>sshRemoteConnWrapper\<close> (ssh.go 117-122): the read deadline
  of the underlying connection (\<open>None\<close>: the zero time, no deadline) and what the
  coming reads of the underlying connection return, each with the time at which it
  returns.
\<close>

datatype connErr = NetTimeout | NetOther | NotNet

record sshRemoteConnWrapper =
  readDeadline :: "nat option"
  writeDeadline :: "nat option"
  connReads :: "(nat \<times> nat \<times> connErr option) list"

definition SetReadDeadline :: "sshRemoteConnWrapper \<Rightarrow> nat option \<Rightarrow> sshRemoteConnWrapper" where
  "SetReadDeadline s t = s\<lparr>readDeadline := t\<rparr>"

definition sshEmptyTime :: "nat option" where
  "sshEmptyTime = None"

text \<open>\<open>enableRemoteReadTimeoutRetry\<close> (ssh.go 360-365).\<close>

definition enableRemoteReadTimeoutRetry :: "sshClient \<Rightarrow> sshClient" where
  "enableRemoteReadTimeoutRetry d = d\<lparr>remoteReadTimeoutRetry := True\<rparr>"

text \<open>\<open>disableRemoteReadTimeoutRetry\<close> (ssh.go 367-373).\<close>

definition disableRemoteReadTimeoutRetry :: "sshClient \<Rightarrow> sshClient" where
  "disableRemoteReadTimeoutRetry d =
     d\<lparr>remoteReadTimeoutRetry := False, remoteReadForceRetryNextTimeout := True\<rparr>"

text \<open>
  The hook \<open>requestTimeoutRetry\<close> that \<open>dialRemote\<close> installs (ssh.go 389-403), for
  the handshake timeout \<open>config.Timeout\<close> and the time \<open>now\<close> of the call.
\<close>

definition requestTimeoutRetry ::
  "nat \<Rightarrow> nat \<Rightarrow> sshClient \<Rightarrow> sshRemoteConnWrapper
     \<Rightarrow> bool \<times> sshClient \<times> sshRemoteConnWrapper" where
  "requestTimeoutRetry timeout now d s =
     (if \<not> remoteReadTimeoutRetry d \<and> \<not> remoteReadForceRetryNextTimeout d
      then (False, d, s)
      else
        let d' = (if \<not> remoteReadTimeoutRetry d
                  then d\<lparr>remoteReadForceRetryNextTimeout := False\<rparr> else d)
        in (True, d', SetReadDeadline s (Some (now + timeout))))"

text \<open>
  The closure \<open>clearConnInitialDeadline\<close> that \<open>dialRemote\<close> returns
  (ssh.go 417-425).
\<close>

definition clearConnInitialDeadline ::
  "sshClient \<Rightarrow> sshRemoteConnWrapper \<Rightarrow> sshClient \<times> sshRemoteConnWrapper" where
  "clearConnInitialDeadline d s =
     (d\<lparr>remoteReadTimeoutRetry := False, remoteReadForceRetryNextTimeout := True\<rparr>,
      SetReadDeadline s sshEmptyTime)"

text \<open>
  \<open>sshRemoteConnWrapper.Read\<close> (ssh.go 124-136). The loop reads the underlying
  connection until a read succeeds, fails with something that is not a timeout, or
  the hook refuses the retry. When the underlying connection has nothing more to
  return the read never returns (\<open>None\<close>).
\<close>

lemma requestTimeoutRetry_connReads:
  "requestTimeoutRetry timeout now d s = (b, d', s') \<Longrightarrow> connReads s' = connReads s"
  by (auto simp: requestTimeoutRetry_def SetReadDeadline_def Let_def split: if_splits)

function Read ::
  "nat \<Rightarrow> sshClient \<Rightarrow> sshRemoteConnWrapper
     \<Rightarrow> ((nat \<times> connErr option) \<times> sshClient \<times> sshRemoteConnWrapper) option" where
  "Read timeout d s =
     (case connReads s of
        [] \<Rightarrow> None
      | (now, rLen, rErr) # rest \<Rightarrow>
          (let s1 = s\<lparr>connReads := rest\<rparr> in
           case rErr of
             None \<Rightarrow> Some ((rLen, None), d, s1)
           | Some e \<Rightarrow>
               if e \<noteq> NetTimeout then Some ((rLen, rErr), d, s1)
               else
                 (case requestTimeoutRetry timeout now d s1 of
                    (retry, d', s') \<Rightarrow>
                      if retry then Read timeout d' s'
                      else Some ((rLen, rErr), d', s'))))"
  by pat_completeness auto
termination
  by (relation "measure (\<lambda>(timeout, d, s). length (connReads s))")
     (auto dest: requestTimeoutRetry_connReads [OF sym])

subsection \<open>The frame reader\<close>

text \<open>
  Modelled from the spec: \<open>rw.LimitedReader\<close>, \<open>rw.FetchOneByte\<close> and the
  stream behind them are not part of the source at hand. The spec has the handlers
  pull "the buffered payload chunks from the reader", read "exactly 4 bytes" and read
  "one byte" of "the framed payload". The reader is the number \<open>rN\<close> of payload
  bytes of the frame not yet read, and \<open>rSrc\<close>: what the stream delivers next, in
  order, each item either the bytes that arrive together or the error the read ends
  with. With nothing left to deliver a read blocks.
\<close>

record LimitedReader =
  rN :: nat
  rSrc :: "(error + byte list) list"

definition Remains :: "LimitedReader \<Rightarrow> nat" where
  "Remains r = rN r"

definition Completed :: "LimitedReader \<Rightarrow> bool" where
  "Completed r = (rN r \<le> 0)"

text \<open>
  \<open>r.Fetch(k)\<close>: at most \<open>k\<close> bytes, and no more than remain in the frame, of what
  has arrived; \<open>io.EOF\<close> once the frame is complete.
\<close>

definition Fetch :: "LimitedReader \<Rightarrow> nat \<Rightarrow> ((error + byte list) \<times> LimitedReader) outcome" where
  "Fetch r k =
     (if Completed r then Returned (Inl ErrEOF, r)
      else
        (case rSrc r of
           [] \<Rightarrow> Blocked
         | Inl e # rest \<Rightarrow> Returned (Inl e, r\<lparr>rSrc := rest\<rparr>)
         | Inr data # rest \<Rightarrow>
             (let m = min k (Remains r);
                  exported = take m data;
                  left = drop m data
              in Returned (Inr exported,
                   r\<lparr>rN := rN r - length exported,
                     rSrc := (if left = [] then rest else Inr left # rest)\<rparr>))))"

definition Buffered :: "LimitedReader \<Rightarrow> ((error + byte list) \<times> LimitedReader) outcome" where
  "Buffered r = Fetch r (Remains r)"

text \<open>\<open>r.Read(b)\<close> for a slice \<open>b\<close> of \<open>k\<close> bytes: the bytes read into it.\<close>

definition LimitedReader_Read ::
  "LimitedReader \<Rightarrow> nat \<Rightarrow> ((error + byte list) \<times> LimitedReader) outcome" where
  "LimitedReader_Read r k = Fetch r k"

text \<open>What is left to deliver, as a number that every read which delivers makes smaller.\<close>

fun srcSize :: "(error + byte list) list \<Rightarrow> nat" where
  "srcSize [] = 0"
| "srcSize (Inl e # rest) = Suc (srcSize rest)"
| "srcSize (Inr data # rest) = Suc (length data + srcSize rest)"

lemma Fetch_srcSize:
  "Fetch r k = Returned (x, r') \<Longrightarrow> \<not> Completed r \<Longrightarrow> 0 < k \<Longrightarrow>
   srcSize (rSrc r') < srcSize (rSrc r)"
  by (cases "rSrc r" rule: srcSize.cases)
     (auto simp: Fetch_def Completed_def Remains_def Let_def min_def split: if_splits)

lemma Fetch_Completed:
  "Completed r \<Longrightarrow> Fetch r k = Returned (Inl ErrEOF, r)"
  by (simp add: Fetch_def)

lemma Fetch_Inr_not_Completed:
  "Fetch r k = Returned (Inr data, r') \<Longrightarrow> \<not> Completed r"
  by (auto simp: Fetch_def split: if_splits)

lemma Fetch_Inr_srcSize:
  "Fetch r k = Returned (Inr data, r') \<Longrightarrow> 0 < k \<Longrightarrow>
   srcSize (rSrc r') < srcSize (rSrc r)"
  using Fetch_srcSize Fetch_Inr_not_Completed by blast

text \<open>
  \<open>rw.FetchOneByte(r.Fetch)\<close>: fetches one byte, again for as long as a fetch
  delivers nothing.
\<close>

function FetchOneByte :: "LimitedReader \<Rightarrow> ((error + byte list) \<times> LimitedReader) outcome" where
  "FetchOneByte r =
     (case Fetch r 1 of
        Blocked \<Rightarrow> Blocked
      | Panic \<Rightarrow> Panic
      | Returned (Inl e, r') \<Rightarrow> Returned (Inl e, r')
      | Returned (Inr data, r') \<Rightarrow>
          if length data \<le> 0 then FetchOneByte r'
          else Returned (Inr data, r'))"
  by pat_completeness auto
termination
  by (relation "measure (\<lambda>r. srcSize (rSrc r))")
     (auto dest: Fetch_Inr_srcSize)

text \<open>
  \<open>io.ReadFull(r, b)\<close> of Go's library, for a slice of \<open>k\<close> bytes: it reads until
  it has them all; \<open>acc\<close> is what it has read so far. An \<open>io.EOF\<close> after some but
  not all bytes is \<open>io.ErrUnexpectedEOF\<close>.
\<close>

function ReadAtLeast ::
  "LimitedReader \<Rightarrow> nat \<Rightarrow> byte list \<Rightarrow> ((error + byte list) \<times> LimitedReader) outcome" where
  "ReadAtLeast r k acc =
     (if k \<le> length acc then Returned (Inr acc, r)
      else
        (case LimitedReader_Read r (k - length acc) of
           Blocked \<Rightarrow> Blocked
         | Panic \<Rightarrow> Panic
         | Returned (Inl e, r') \<Rightarrow>
             Returned (Inl (if 0 < length acc \<and> e = ErrEOF then ErrUnexpectedEOF else e), r')
         | Returned (Inr data, r') \<Rightarrow> ReadAtLeast r' k (acc @ data)))"
  by pat_completeness auto
termination
  by (relation "measure (\<lambda>(r, k, acc). srcSize (rSrc r))")
     (auto simp: LimitedReader_Read_def intro: Fetch_Inr_srcSize)

definition ReadFull ::
  "LimitedReader \<Rightarrow> nat \<Rightarrow> ((error + byte list) \<times> LimitedReader) outcome" where
  "ReadFull r k = ReadAtLeast r k []"

text \<open>The hook called once for each time of \<open>nows\<close>, in order: what each call returned.\<close>

fun requestTimeoutRetries ::
  "nat \<Rightarrow> nat list \<Rightarrow> sshClient \<Rightarrow> sshRemoteConnWrapper
     \<Rightarrow> bool list \<times> sshClient \<times> sshRemoteConnWrapper" where
  "requestTimeoutRetries timeout [] d s = ([], d, s)"
| "requestTimeoutRetries timeout (now # nows) d s =
     (case requestTimeoutRetry timeout now d s of
        (b, d', s') \<Rightarrow>
          (case requestTimeoutRetries timeout nows d' s' of
             (bs, d'', s'') \<Rightarrow> (b # bs, d'', s'')))"

subsection \<open>The remote task, as the control task meets it\<close>

text \<open>
  \<open>remote\<close> (ssh.go 428-589) runs beside the control task. What it does to the
  fields both tasks use, one step at a time: a callback of the handshake receives from
  \<open>credentialReceive\<close> (ssh.go 285, 310) or \<open>fingerprintVerifyResultReceive\<close>
  (ssh.go 349); the handle is sent on \<open>remoteConnReceive\<close> (ssh.go 538-546); the stderr
  pump is started (ssh.go 556-558) and exits (ssh.go 559); the deferred function runs
  when \<open>remote\<close> returns (ssh.go 430-435). A step that the task cannot take where it
  stands (a receive on an empty open channel, a step out of the order of the source)
  leaves the session as it is.
\<close>

datatype remoteStep =
    RemoteReceiveCredential
  | RemoteReceiveFingerprint
  | RemotePublish
  | RemoteStartStderrPump
  | RemoteStderrPumpExit
  | RemoteExit

text \<open>\<open>WaitGroup.Done\<close> panics when the counter would become negative.\<close>

definition wgDone :: "sshClient \<Rightarrow> sshClient outcome" where
  "wgDone d =
     (if remoteCloseWait d = 0 then Panic
      else Returned (d\<lparr>remoteCloseWait := remoteCloseWait d - 1\<rparr>))"

definition Signal :: "StreamResponder \<Rightarrow> string \<Rightarrow> StreamResponder" where
  "Signal w h = w\<lparr>wSignals := wSignals w @ [h]\<rparr>"

fun remoteDo :: "remoteStep \<Rightarrow> sshClient \<Rightarrow> sshClient outcome" where
  "remoteDo RemoteReceiveCredential d =
     (if remoteTask d \<noteq> Running then Returned d
      else
        (case chan_recv (credentialReceive d) of
           Returned (v, c) \<Rightarrow> Returned (d\<lparr>credentialReceive := c\<rparr>)
         | Blocked \<Rightarrow> Returned d
         | Panic \<Rightarrow> Panic))"
| "remoteDo RemoteReceiveFingerprint d =
     (if remoteTask d \<noteq> Running then Returned d
      else
        (case chan_recv (fingerprintVerifyResultReceive d) of
           Returned (v, c) \<Rightarrow> Returned (d\<lparr>fingerprintVerifyResultReceive := c\<rparr>)
         | Blocked \<Rightarrow> Returned d
         | Panic \<Rightarrow> Panic))"
| "remoteDo RemotePublish d =
     (if remoteTask d \<noteq> Running \<or> chSent (remoteConnReceive d) \<noteq> [] then Returned d
      else
        (case chan_send (remoteConnReceive d) liveRemoteConn of
           Returned c \<Rightarrow> Returned (d\<lparr>remoteConnReceive := c\<rparr>)
         | Blocked \<Rightarrow> Returned d
         | Panic \<Rightarrow> Panic))"
| "remoteDo RemoteStartStderrPump d =
     (if remoteTask d \<noteq> Running \<or> chSent (remoteConnReceive d) = []
         \<or> stderrPump d \<noteq> NotStarted
      then Returned d
      else Returned (d\<lparr>remoteCloseWait := remoteCloseWait d + 1, stderrPump := Running\<rparr>))"
| "remoteDo RemoteStderrPumpExit d =
     (if stderrPump d \<noteq> Running then Returned d
      else
        (case wgDone d of
           Returned d' \<Rightarrow> Returned (d'\<lparr>stderrPump := Exited\<rparr>)
         | Blocked \<Rightarrow> Blocked
         | Panic \<Rightarrow> Panic))"
| "remoteDo RemoteExit d =
     (if remoteTask d \<noteq> Running then Returned d
      else
        (let d1 = d\<lparr>dw := Signal (dw d) ''HeaderClose''\<rparr> in
         case chan_close (remoteConnReceive d1) of
           Returned c \<Rightarrow>
             (case wgDone (callBaseCtxCancel (d1\<lparr>remoteConnReceive := c\<rparr>)) of
                Returned d' \<Rightarrow> Returned (d'\<lparr>remoteTask := Exited\<rparr>)
              | Blocked \<Rightarrow> Blocked
              | Panic \<Rightarrow> Panic)
         | Blocked \<Rightarrow> Blocked
         | Panic \<Rightarrow> Panic))"

text \<open>
  A blocking call of the control task takes, with the session, the steps \<open>evs\<close> that
  the remote task makes while the call waits, and gives back those it did not need.
  \<open>awaitRemoteConn\<close> is the receive \<open><-d.remoteConnReceive\<close> of \<open>getRemote\<close>;
  \<open>awaitRemoteCloseWait\<close> is \<open>d.remoteCloseWait.Wait()\<close>.
\<close>

fun awaitRemoteConn ::
  "sshClient \<Rightarrow> remoteStep list
     \<Rightarrow> sshRemoteConn option outcome \<times> sshClient \<times> remoteStep list" where
  "awaitRemoteConn d [] =
     (case chan_recv (remoteConnReceive d) of
        Returned (v, c) \<Rightarrow> (Returned v, d\<lparr>remoteConnReceive := c\<rparr>, [])
      | Blocked \<Rightarrow> (Blocked, d, [])
      | Panic \<Rightarrow> (Panic, d, []))"
| "awaitRemoteConn d (e # es) =
     (case chan_recv (remoteConnReceive d) of
        Returned (v, c) \<Rightarrow> (Returned v, d\<lparr>remoteConnReceive := c\<rparr>, e # es)
      | Blocked \<Rightarrow>
          (case remoteDo e d of
             Returned d' \<Rightarrow> awaitRemoteConn d' es
           | Blocked \<Rightarrow> (Blocked, d, es)
           | Panic \<Rightarrow> (Panic, d, es))
      | Panic \<Rightarrow> (Panic, d, e # es))"

fun awaitRemoteCloseWait ::
  "sshClient \<Rightarrow> remoteStep list \<Rightarrow> unit outcome \<times> sshClient \<times> remoteStep list" where
  "awaitRemoteCloseWait d [] =
     (if remoteCloseWait d = 0 then (Returned (), d, []) else (Blocked, d, []))"
| "awaitRemoteCloseWait d (e # es) =
     (if remoteCloseWait d = 0 then (Returned (), d, e # es)
      else
        (case remoteDo e d of
           Returned d' \<Rightarrow> awaitRemoteCloseWait d' es
         | Blocked \<Rightarrow> (Blocked, d, es)
         | Panic \<Rightarrow> (Panic, d, es)))"

subsection \<open>The local frame handler\<close>

text \<open>\<open>getRemote\<close> (ssh.go 591-603).\<close>

definition getRemote ::
  "sshClient \<Rightarrow> remoteStep list
     \<Rightarrow> (error + sshRemoteConn) outcome \<times> sshClient \<times> remoteStep list" where
  "getRemote d evs =
     (if isValid (remoteConn d) then (Returned (Inr (remoteConn d)), d, evs)
      else
        (case awaitRemoteConn d evs of
           (Returned None, d', evs') \<Rightarrow>
             (Returned (Inl ErrSSHRemoteConnUnavailable), d', evs')
         | (Returned (Some remoteConn'), d', evs') \<Rightarrow>
             (Returned (Inr remoteConn'), d'\<lparr>remoteConn := remoteConn'\<rparr>, evs')
         | (Blocked, d', evs') \<Rightarrow> (Blocked, d', evs')
         | (Panic, d', evs') \<Rightarrow> (Panic, d', evs')))"

text \<open>
  The calls on the remote handle: \<open>remote.writer.Write\<close>, \<open>remote.closer()\<close>
  (its result is dropped everywhere) and \<open>remote.session.WindowChange\<close>.
\<close>

definition remoteWrite :: "sshClient \<Rightarrow> byte list \<Rightarrow> error option \<times> sshClient" where
  "remoteWrite d rData =
     (case writeResults (rio d) of
        [] \<Rightarrow> (None, d\<lparr>rio := (rio d)\<lparr>stdinWrites := stdinWrites (rio d) @ [rData]\<rparr>\<rparr>)
      | wErr # rest \<Rightarrow>
          (wErr, d\<lparr>rio := (rio d)\<lparr>stdinWrites := stdinWrites (rio d) @ [rData],
                                 writeResults := rest\<rparr>\<rparr>))"

definition callCloser :: "sshClient \<Rightarrow> sshClient" where
  "callCloser d = d\<lparr>rio := (rio d)\<lparr>closerCalls := Suc (closerCalls (rio d))\<rparr>\<rparr>"

definition WindowChange :: "sshClient \<Rightarrow> int \<Rightarrow> int \<Rightarrow> error option \<times> sshClient" where
  "WindowChange d rows cols =
     (case windowChangeResults (rio d) of
        [] \<Rightarrow> (None, d\<lparr>rio := (rio d)\<lparr>windowChanges := windowChanges (rio d) @ [(rows, cols)]\<rparr>\<rparr>)
      | wcErr # rest \<Rightarrow>
          (wcErr, d\<lparr>rio := (rio d)\<lparr>windowChanges := windowChanges (rio d) @ [(rows, cols)],
                                  windowChangeResults := rest\<rparr>\<rparr>))"

definition Debug :: "sshClient \<Rightarrow> logEntry \<Rightarrow> sshClient" where
  "Debug d m = d\<lparr>dl := dl d @ [m]\<rparr>"

lemma Buffered_srcSize:
  "Buffered r = Returned (x, r') \<Longrightarrow> \<not> Completed r \<Longrightarrow>
   srcSize (rSrc r') < srcSize (rSrc r)"
  unfolding Buffered_def
  by (rule Fetch_srcSize) (auto simp: Completed_def Remains_def)

text \<open>The loop of the \<open>SSHClientStdIn\<close> case (ssh.go 618-629).\<close>

function stdInLoop ::
  "sshClient \<Rightarrow> LimitedReader \<Rightarrow> error option outcome \<times> sshClient \<times> LimitedReader" where
  "stdInLoop d r =
     (if Completed r then (Returned None, d, r)
      else
        (case Buffered r of
           Blocked \<Rightarrow> (Blocked, d, r)
         | Panic \<Rightarrow> (Panic, d, r)
         | Returned (Inl rErr, r') \<Rightarrow> (Returned (Some rErr), d, r')
         | Returned (Inr rData, r') \<Rightarrow>
             (case remoteWrite d rData of
                (None, d') \<Rightarrow> stdInLoop d' r'
              | (Some wErr, d') \<Rightarrow>
                  stdInLoop (Debug (callCloser d') (FailedToWriteDataToRemote wErr)) r')))"
  by pat_completeness auto
termination
  by (relation "measure (\<lambda>(d, r). srcSize (rSrc r))") (auto dest: Buffered_srcSize)

text \<open>
  The loop of the \<open>SSHClientRespondCredential\<close> case (ssh.go 705-717), with
  \<open>totalCredentialRead\<close> and \<open>credentialDataBuf\<close> as arguments.
\<close>

function credentialLoop ::
  "LimitedReader \<Rightarrow> nat \<Rightarrow> nat \<Rightarrow> byte list
     \<Rightarrow> (error + byte list) outcome \<times> LimitedReader" where
  "credentialLoop r sshCredentialBufSize totalCredentialRead credentialDataBuf =
     (if Completed r then (Returned (Inr credentialDataBuf), r)
      else
        (case Buffered r of
           Blocked \<Rightarrow> (Blocked, r)
         | Panic \<Rightarrow> (Panic, r)
         | Returned (Inl rErr, r') \<Rightarrow> (Returned (Inl rErr), r')
         | Returned (Inr rData, r') \<Rightarrow>
             (let totalCredentialRead' = totalCredentialRead + length rData in
              if totalCredentialRead' > sshCredentialBufSize
              then (Returned (Inl ErrSSHCredentialDataTooLarge), r')
              else credentialLoop r' sshCredentialBufSize totalCredentialRead'
                     (credentialDataBuf @ rData))))"
  by pat_completeness auto
termination
  by (relation "measure (\<lambda>(r, n, t, b). srcSize (rSrc r))") (auto dest: Buffered_srcSize)

text \<open>
  \<open>local\<close> (ssh.go 605-726), for the marker \<open>h.Marker()\<close> of the frame, its reader
  \<open>r\<close>, the scratch buffer \<open>b\<close> and the steps \<open>evs\<close> of the remote task while a
  call of the handler waits. The four cases of the switch first, each under the name of
  its marker.
\<close>

definition localStdIn ::
  "sshClient \<Rightarrow> LimitedReader \<Rightarrow> remoteStep list
     \<Rightarrow> error option outcome \<times> sshClient \<times> LimitedReader" where
  "localStdIn d r evs =
     (case getRemote d evs of
        (Returned (Inl remoteErr), d1, evs') \<Rightarrow> (Returned (Some remoteErr), d1, r)
      | (Returned (Inr remote), d1, evs') \<Rightarrow> stdInLoop d1 r
      | (Blocked, d1, evs') \<Rightarrow> (Blocked, d1, r)
      | (Panic, d1, evs') \<Rightarrow> (Panic, d1, r))"

definition localResize ::
  "sshClient \<Rightarrow> LimitedReader \<Rightarrow> byte list \<Rightarrow> remoteStep list
     \<Rightarrow> error option outcome \<times> sshClient \<times> LimitedReader" where
  "localResize d r b evs =
     (case getRemote d evs of
        (Returned (Inl remoteErr), d1, evs') \<Rightarrow> (Returned (Some remoteErr), d1, r)
      | (Blocked, d1, evs') \<Rightarrow> (Blocked, d1, r)
      | (Panic, d1, evs') \<Rightarrow> (Panic, d1, r)
      | (Returned (Inr remote), d1, evs') \<Rightarrow>
          if length b < 4 then (Panic, d1, r)
          else
            (case ReadFull r 4 of
               Blocked \<Rightarrow> (Blocked, d1, r)
             | Panic \<Rightarrow> (Panic, d1, r)
             | Returned (Inl rErr, r') \<Rightarrow> (Returned (Some rErr), d1, r')
             | Returned (Inr bytes, r') \<Rightarrow>
                 (let b' = bytes @ drop 4 b;
                      rows = push_bit 8 (uint (b' ! 0)) OR uint (b' ! 1);
                      cols = push_bit 8 (uint (b' ! 2)) OR uint (b' ! 3)
                  in case WindowChange d1 rows cols of
                       (None, d2) \<Rightarrow> (Returned None, d2, r')
                     | (Some wcErr, d2) \<Rightarrow>
                         (Returned None, Debug d2 (FailedToResize rows cols wcErr), r'))))"

definition localRespondFingerprint ::
  "sshClient \<Rightarrow> LimitedReader \<Rightarrow> remoteStep list
     \<Rightarrow> error option outcome \<times> sshClient \<times> LimitedReader" where
  "localRespondFingerprint d r evs =
     (if fingerprintProcessed d
      then (Returned (Some ErrSSHUnexpectedFingerprintVerificationRespond), d, r)
      else
        (let d1 = d\<lparr>fingerprintProcessed := True\<rparr> in
         case FetchOneByte r of
           Blocked \<Rightarrow> (Blocked, d1, r)
         | Panic \<Rightarrow> (Panic, d1, r)
         | Returned (Inl rErr, r') \<Rightarrow> (Returned (Some rErr), d1, r')
         | Returned (Inr rData, r') \<Rightarrow>
             (let comfirmed = (rData ! 0 = 0) in
              if \<not> comfirmed then
                (case chan_send (fingerprintVerifyResultReceive d1) False of
                   Blocked \<Rightarrow> (Blocked, d1, r')
                 | Panic \<Rightarrow> (Panic, d1, r')
                 | Returned c \<Rightarrow>
                     (case getRemote (d1\<lparr>fingerprintVerifyResultReceive := c\<rparr>) evs of
                        (Returned (Inl remoteErr), d2, evs') \<Rightarrow> (Returned None, d2, r')
                      | (Returned (Inr remote), d2, evs') \<Rightarrow>
                          (Returned None, callCloser d2, r')
                      | (Blocked, d2, evs') \<Rightarrow> (Blocked, d2, r')
                      | (Panic, d2, evs') \<Rightarrow> (Panic, d2, r')))
              else
                (case chan_send (fingerprintVerifyResultReceive d1) True of
                   Blocked \<Rightarrow> (Blocked, d1, r')
                 | Panic \<Rightarrow> (Panic, d1, r')
                 | Returned c \<Rightarrow>
                     (Returned None, d1\<lparr>fingerprintVerifyResultReceive := c\<rparr>, r')))))"

definition localRespondCredential ::
  "sshClient \<Rightarrow> LimitedReader \<Rightarrow> error option outcome \<times> sshClient \<times> LimitedReader" where
  "localRespondCredential d r =
     (if credentialProcessed d
      then (Returned (Some ErrSSHUnexpectedCredentialDataRespond), d, r)
      else
        (let d1 = d\<lparr>credentialProcessed := True\<rparr>;
             sshCredentialBufSize =
               (if Remains r > sshCredentialMaxSize then sshCredentialMaxSize
                else Remains r)
         in case credentialLoop r sshCredentialBufSize 0 [] of
              (Blocked, r') \<Rightarrow> (Blocked, d1, r')
            | (Panic, r') \<Rightarrow> (Panic, d1, r')
            | (Returned (Inl rErr), r') \<Rightarrow> (Returned (Some rErr), d1, r')
            | (Returned (Inr credentialDataBuf), r') \<Rightarrow>
                (case chan_send (credentialReceive d1) credentialDataBuf of
                   Blocked \<Rightarrow> (Blocked, d1, r')
                 | Panic \<Rightarrow> (Panic, d1, r')
                 | Returned c \<Rightarrow> (Returned None, d1\<lparr>credentialReceive := c\<rparr>, r'))))"

definition local ::
  "sshClient \<Rightarrow> LimitedReader \<Rightarrow> byte \<Rightarrow> byte list \<Rightarrow> remoteStep list
     \<Rightarrow> error option outcome \<times> sshClient \<times> LimitedReader" where
  "local d r h b evs =
     (if h = SSHClientStdIn then localStdIn d r evs
      else if h = SSHClientResize then localResize d r b evs
      else if h = SSHClientRespondFingerprint then localRespondFingerprint d r evs
      else if h = SSHClientRespondCredential then localRespondCredential d r
      else (Returned (Some ErrSSHUnknownClientSignal), d, r))"

subsection \<open>Lifecycle\<close>

text \<open>\<open>Close\<close> (ssh.go 728-753) and \<open>Release\<close> (ssh.go 755-758).\<close>

definition Close :: "sshClient \<Rightarrow> remoteStep list \<Rightarrow> error option outcome \<times> sshClient" where
  "Close d evs =
     (let d1 = d\<lparr>credentialProcessed := True, fingerprintProcessed := True\<rparr> in
      case (if \<not> credentialReceiveClosed d1
            then (case chan_close (credentialReceive d1) of
                    Returned c \<Rightarrow>
                      Returned (d1\<lparr>credentialReceive := c, credentialReceiveClosed := True\<rparr>)
                  | Blocked \<Rightarrow> Blocked
                  | Panic \<Rightarrow> Panic)
            else Returned d1) of
        Blocked \<Rightarrow> (Blocked, d1)
      | Panic \<Rightarrow> (Panic, d1)
      | Returned d2 \<Rightarrow>
          (case (if \<not> fingerprintVerifyResultReceiveClosed d2
                 then (case chan_close (fingerprintVerifyResultReceive d2) of
                         Returned c \<Rightarrow>
                           Returned (d2\<lparr>fingerprintVerifyResultReceive := c,
                                        fingerprintVerifyResultReceiveClosed := True\<rparr>)
                       | Blocked \<Rightarrow> Blocked
                       | Panic \<Rightarrow> Panic)
                 else Returned d2) of
             Blocked \<Rightarrow> (Blocked, d2)
           | Panic \<Rightarrow> (Panic, d2)
           | Returned d3 \<Rightarrow>
               (case getRemote d3 evs of
                  (Blocked, d4, evs') \<Rightarrow> (Blocked, d4)
                | (Panic, d4, evs') \<Rightarrow> (Panic, d4)
                | (Returned remote, d4, evs') \<Rightarrow>
                    (let d5 = (case remote of Inl remoteErr \<Rightarrow> d4 | Inr rc \<Rightarrow> callCloser d4);
                         d6 = callBaseCtxCancel d5
                     in case awaitRemoteCloseWait d6 evs' of
                          (Returned u, d7, evs'') \<Rightarrow> (Returned None, d7)
                        | (Blocked, d7, evs'') \<Rightarrow> (Blocked, d7)
                        | (Panic, d7, evs'') \<Rightarrow> (Panic, d7)))))"

definition Release :: "sshClient \<Rightarrow> error option \<times> sshClient" where
  "Release d = (None, callBaseCtxCancel d)"

subsection \<open>Frames that arrive\<close>

text \<open>
  What the stream delivers before any error, as one run of bytes. The payload of a
  frame arrives when the stream delivers all the bytes of the frame that are still to
  read; those bytes are the payload of the frame.
\<close>

fun available :: "(error + byte list) list \<Rightarrow> byte list" where
  "available [] = []"
| "available (Inl e # rest) = []"
| "available (Inr data # rest) = data @ available rest"

definition frameArrives :: "LimitedReader \<Rightarrow> bool" where
  "frameArrives r = (rN r \<le> length (available (rSrc r)))"

definition framePayload :: "LimitedReader \<Rightarrow> byte list" where
  "framePayload r = take (rN r) (available (rSrc r))"

text \<open>
  The payload of a \<open>Resize\<close> frame for \<open>rows\<close> and \<open>cols\<close>: four bytes, each
  number big-endian (spec section 6).
\<close>

definition resizePayload :: "int \<Rightarrow> int \<Rightarrow> byte list" where
  "resizePayload rows cols =
     [of_int (rows div 256), of_int (rows mod 256), of_int (cols div 256), of_int (cols mod 256)]"


subsection \<open>Bootup\<close>

text \<open>
  Modelled from the spec: \<open>command.FSMError\<close>, \<open>command.ToFSMError\<close>,
  \<open>command.NoFSMError\<close> and \<open>command.FSMState\<close> are not part of the source at
  hand. A bootup failure is an error with the code of its taxonomy tag (spec section 6);
  the state \<open>Bootup\<close> hands over to is the handler \<open>d.local\<close>.
\<close>

datatype FSMError = ToFSMError error byte | NoFSMError

datatype FSMState = StateLocal

text \<open>\<open>buildAuthMethod\<close> (ssh.go 262-327).\<close>

definition buildAuthMethod :: "byte \<Rightarrow> error + sshAuthMethodBuilder" where
  "buildAuthMethod methodType =
     (if methodType = SSHAuthMethodNone then Inr BuildNone
      else if methodType = SSHAuthMethodPassphrase then Inr BuildPassphrase
      else if methodType = SSHAuthMethodPrivateKey then Inr BuildPrivateKey
      else Inl ErrSSHInvalidAuthMethod)"

text \<open>
  \<open>Bootup\<close> (ssh.go 217-260). \<open>ParseString\<close> and \<open>ParseAddress\<close> are functions of
  the package that the source at hand does not hold; they are arguments here, each
  taking the reader and the buffer and giving back the parsed value or an error, and
  the reader as the parse left it. \<open>ParseAddress\<close> stands for the parse followed by
  \<open>addr.String()\<close>. Go strings are byte sequences.
\<close>

type_synonym 'a parser = "LimitedReader \<Rightarrow> byte list \<Rightarrow> ((error + 'a) \<times> LimitedReader) outcome"

definition Bootup ::
  "byte list parser \<Rightarrow> byte list parser \<Rightarrow> sshClient \<Rightarrow> LimitedReader \<Rightarrow> byte list
     \<Rightarrow> (FSMState option \<times> FSMError) outcome \<times> sshClient \<times> LimitedReader" where
  "Bootup ParseString ParseAddress d r b =
     (case ParseString r b of
        Blocked \<Rightarrow> (Blocked, d, r)
      | Panic \<Rightarrow> (Panic, d, r)
      | Returned (Inl userNameErr, r1) \<Rightarrow>
          (Returned (None, ToFSMError userNameErr SSHRequestErrorBadUserName), d, r1)
      | Returned (Inr userName, r1) \<Rightarrow>
          (case ParseAddress r1 b of
             Blocked \<Rightarrow> (Blocked, d, r1)
           | Panic \<Rightarrow> (Panic, d, r1)
           | Returned (Inl addrErr, r2) \<Rightarrow>
               (Returned (None, ToFSMError addrErr SSHRequestErrorBadRemoteAddress), d, r2)
           | Returned (Inr addrStr, r2) \<Rightarrow>
               if length addrStr \<le> 0
               then (Returned (None,
                       ToFSMError ErrSSHInvalidAddress SSHRequestErrorBadRemoteAddress), d, r2)
               else
                 (case FetchOneByte r2 of
                    Blocked \<Rightarrow> (Blocked, d, r2)
                  | Panic \<Rightarrow> (Panic, d, r2)
                  | Returned (Inl rErr, r3) \<Rightarrow>
                      (Returned (None, ToFSMError rErr SSHRequestErrorBadAuthMethod), d, r3)
                  | Returned (Inr rData, r3) \<Rightarrow>
                      (case buildAuthMethod (rData ! 0) of
                         Inl authMethodBuilderErr \<Rightarrow>
                           (Returned (None,
                              ToFSMError authMethodBuilderErr SSHRequestErrorBadAuthMethod),
                            d, r3)
                       | Inr authMethodBuilder \<Rightarrow>
                           (Returned (Some StateLocal, NoFSMError),
                            d\<lparr>remoteCloseWait := remoteCloseWait d + 1,
                              remoteTask := Running,
                              remoteArgs := Some (userName, addrStr, authMethodBuilder)\<rparr>,
                            r3)))))"

text \<open>
  The fields of the session that only the control task writes, and the histories of the
  two channels it sends on: no step of the remote task changes them.
\<close>

definition controlFields ::
  "sshClient \<Rightarrow> bool \<times> bool \<times> bool \<times> bool \<times> sshRemoteConn \<times> remoteIO \<times> logEntry list
     \<times> byte list list \<times> bool list" where
  "controlFields d = (credentialProcessed d, fingerprintProcessed d, credentialReceiveClosed d,
     fingerprintVerifyResultReceiveClosed d, remoteConn d, rio d, dl d,
     chSent (credentialReceive d), chSent (fingerprintVerifyResultReceive d))"

subsection \<open>The life of a session\<close>

text \<open>
  A one-shot channel of the session, with its flag \<open>processed\<close> (a value may have been
  sent) and its flag \<open>closedFlag\<close> (\<open>Close\<close> has closed it): the capacity is one;
  at most one value was ever sent, and none while \<open>processed\<close> is false; the channel
  is closed exactly when \<open>closedFlag\<close> says so, only after \<open>processed\<close> was set,
  and was closed at most once.
\<close>

definition chanInv :: "bool \<Rightarrow> bool \<Rightarrow> 'a chan \<Rightarrow> bool" where
  "chanInv processed closedFlag c =
     (chCap c = 1 \<and> length (chSent c) \<le> 1 \<and> (\<not> processed \<longrightarrow> chSent c = [])
      \<and> (chSent c = [] \<longrightarrow> chBuf c = []) \<and> length (chBuf c) \<le> 1
      \<and> chClosed c = closedFlag \<and> (closedFlag \<longrightarrow> processed)
      \<and> chCloses c = (if closedFlag then 1 else 0))"

text \<open>
  The invariant of a session, in four parts: the credential channel, the fingerprint
  channel, the one-shot cancel of the base context, and the remote task with its stderr
  pump, the wait group that counts them and the channel the handle is published on.
\<close>

definition credInv :: "sshClient \<Rightarrow> bool" where
  "credInv d = chanInv (credentialProcessed d) (credentialReceiveClosed d) (credentialReceive d)"

definition fpInv :: "sshClient \<Rightarrow> bool" where
  "fpInv d = chanInv (fingerprintProcessed d) (fingerprintVerifyResultReceiveClosed d)
     (fingerprintVerifyResultReceive d)"

definition ctxInv :: "sshClient \<Rightarrow> bool" where
  "ctxInv d = (ctxCancels d = (if baseCtxCancel d then 1 else 0))"

definition taskInv :: "sshClient \<Rightarrow> bool" where
  "taskInv d =
     (remoteCloseWait d
        = (if remoteTask d = Running then 1 else 0) + (if stderrPump d = Running then 1 else 0)
      \<and> chCap (remoteConnReceive d) = 1
      \<and> chClosed (remoteConnReceive d) = (remoteTask d = Exited)
      \<and> (chSent (remoteConnReceive d) = [] \<longrightarrow> chBuf (remoteConnReceive d) = [])
      \<and> (\<forall>c \<in> set (chBuf (remoteConnReceive d)). isValid c)
      \<and> (chSent (remoteConnReceive d) \<noteq> [] \<longrightarrow> remoteTask d \<noteq> NotStarted)
      \<and> (isValid (remoteConn d) \<longrightarrow> remoteTask d \<noteq> NotStarted)
      \<and> (stderrPump d \<noteq> NotStarted \<longrightarrow> remoteTask d \<noteq> NotStarted)
      \<and> (remoteTask d = Exited \<longrightarrow> baseCtxCancel d))"

definition sessionInv :: "sshClient \<Rightarrow> bool" where
  "sessionInv d = (credInv d \<and> fpInv d \<and> ctxInv d \<and> taskInv d)"

text \<open>Two sessions that differ at most in what was done to the remote and in the log.\<close>

definition sameButRemote :: "sshClient \<Rightarrow> sshClient \<Rightarrow> bool" where
  "sameButRemote d d' = (\<exists>x y. d' = d\<lparr>rio := x, dl := y\<rparr>)"

text \<open>
  From \<open>d\<close> to \<open>d'\<close> no one-shot flag is taken back, and nothing is sent on a
  channel whose flag was set.
\<close>

definition advances :: "sshClient \<Rightarrow> sshClient \<Rightarrow> bool" where
  "advances d d' =
     ((credentialProcessed d \<longrightarrow>
         credentialProcessed d'
         \<and> chSent (credentialReceive d') = chSent (credentialReceive d))
      \<and> (fingerprintProcessed d \<longrightarrow>
         fingerprintProcessed d'
         \<and> chSent (fingerprintVerifyResultReceive d')
             = chSent (fingerprintVerifyResultReceive d)))"

text \<open>A step keeps the invariant and never takes back a one-shot flag.\<close>

definition okStep :: "sshClient \<Rightarrow> sshClient \<Rightarrow> bool" where
  "okStep d d' = (sessionInv d' \<and> advances d d')"

text \<open>
  What happens to a session after \<open>Bootup\<close>: the dispatcher hands a frame to
  \<open>local\<close> (with its marker, its reader, the buffer, and the steps of the remote task
  while the call waits), it calls \<open>Close\<close> or \<open>Release\<close>, or the remote task makes
  a step of its own between two calls. \<open>run\<close> takes a session through a list of such
  operations. Once a call of the control task blocks for ever, only the remote task goes
  on; once a call panics, nothing goes on.
\<close>

datatype op =
    OpLocal byte LimitedReader "byte list" "remoteStep list"
  | OpClose "remoteStep list"
  | OpRelease
  | OpRemote remoteStep

fun exec :: "op \<Rightarrow> sshClient \<Rightarrow> error option outcome \<times> sshClient" where
  "exec (OpLocal h r b evs) d = (case local d r h b evs of (out, d', r') \<Rightarrow> (out, d'))"
| "exec (OpClose evs) d = Close d evs"
| "exec OpRelease d = (case Release d of (e, d') \<Rightarrow> (Returned e, d'))"
| "exec (OpRemote e) d =
     (case remoteDo e d of
        Returned d' \<Rightarrow> (Returned None, d')
      | Blocked \<Rightarrow> (Blocked, d)
      | Panic \<Rightarrow> (Panic, d))"

fun runRemote :: "remoteStep list \<Rightarrow> sshClient \<Rightarrow> sshClient" where
  "runRemote [] d = d"
| "runRemote (e # es) d =
     (case remoteDo e d of
        Returned d' \<Rightarrow> runRemote es d'
      | Blocked \<Rightarrow> d
      | Panic \<Rightarrow> d)"

fun remoteSteps :: "op list \<Rightarrow> remoteStep list" where
  "remoteSteps [] = []"
| "remoteSteps (OpRemote e # xs) = e # remoteSteps xs"
| "remoteSteps (x # xs) = remoteSteps xs"

fun run :: "op list \<Rightarrow> sshClient \<Rightarrow> sshClient" where
  "run [] d = d"
| "run (x # xs) d =
     (case exec x d of
        (Returned e, d') \<Rightarrow> run xs d'
      | (Blocked, d') \<Rightarrow> runRemote (remoteSteps xs) d'
      | (Panic, d') \<Rightarrow> d')"

text \<open>
  A session at the start of its life: \<open>newSSH\<close>, and then \<open>Bootup\<close> on the first
  frame (\<open>None\<close>: no bootup frame was handled).
\<close>

definition startSession ::
  "StreamResponder
     \<Rightarrow> (byte list parser \<times> byte list parser \<times> LimitedReader \<times> byte list) option
     \<Rightarrow> sshClient" where
  "startSession w boot =
     (case boot of
        None \<Rightarrow> newSSH w
      | Some (ParseString, ParseAddress, r, b) \<Rightarrow>
          fst (snd (Bootup ParseString ParseAddress (newSSH w) r b)))"

subsection \<open>Concrete inputs\<close>

definition exampleResponder :: StreamResponder where
  "exampleResponder = \<lparr>HeaderSize = 2, wFrames = [], wSignals = [], wResults = []\<rparr>"

definition exampleConn :: sshRemoteConnWrapper where
  "exampleConn = \<lparr>readDeadline = Some 30, writeDeadline = Some 30,
     connReads = [(40, 0, Some NetTimeout), (50, 7, None)]\<rparr>"

definition exampleSmallFrame :: LimitedReader where
  "exampleSmallFrame = \<lparr>rN = 3, rSrc = [Inr [1, 2], Inr [3]]\<rparr>"

definition exampleOversizeFrame :: LimitedReader where
  "exampleOversizeFrame = \<lparr>rN = 4097, rSrc = [Inr (replicate 4097 0)]\<rparr>"

definition exampleLiveSession :: sshClient where
  "exampleLiveSession = (newSSH exampleResponder)\<lparr>
     remoteConn := liveRemoteConn,
     rio := newRemoteIO\<lparr>
       writeResults := [Some (ErrExternal ''broken pipe''), None],
       windowChangeResults := [Some (ErrExternal ''resize refused'')]\<rparr>\<rparr>"

definition exampleResizeFrame :: LimitedReader where
  "exampleResizeFrame = \<lparr>rN = 4, rSrc = [Inr [0x00, 0x18, 0x00], Inr [0x50]]\<rparr>"


text \<open>
  Parsers for the concrete inputs: a string is one byte of length and then that many
  bytes (spec section 6, \<open>[ulen:u8][user:ulen bytes]\<close>); the address record is read in
  the same way.
\<close>

definition exampleParseString :: "byte list parser" where
  "exampleParseString r b =
     (case FetchOneByte r of
        Blocked \<Rightarrow> Blocked
      | Panic \<Rightarrow> Panic
      | Returned (Inl e, r1) \<Rightarrow> Returned (Inl e, r1)
      | Returned (Inr l, r1) \<Rightarrow> ReadFull r1 (unat (l ! 0)))"

definition exampleBootFrame :: "byte list \<Rightarrow> LimitedReader" where
  "exampleBootFrame payload = \<lparr>rN = length payload, rSrc = [Inr payload]\<rparr>"

text \<open>
  The session as \<open>Bootup\<close> leaves it for the user name "al", the address "h" and
  the passphrase method: the remote task runs and has published nothing yet.
\<close>

definition exampleBootedSession :: sshClient where
  "exampleBootedSession = (newSSH exampleResponder)\<lparr>
     remoteCloseWait := 1, remoteTask := Running,
     remoteArgs := Some ([0x61, 0x6c], [0x68], BuildPassphrase)\<rparr>"

text \<open>The session after it has handled a first \<open>RespondCredential\<close> frame.\<close>

definition exampleCredentialSession :: sshClient where
  "exampleCredentialSession =
     fst (snd (local (newSSH exampleResponder) exampleSmallFrame SSHClientRespondCredential [] []))"

section \<open>Properties\<close>

subsection \<open>The retry hook\<close>

lemma requestTimeoutRetries_refused:
  "\<not> remoteReadTimeoutRetry d \<Longrightarrow> \<not> remoteReadForceRetryNextTimeout d \<Longrightarrow>
   requestTimeoutRetries timeout nows d s = (replicate (length nows) False, d, s)"
  by (induction nows) (simp_all add: requestTimeoutRetry_def)

text \<open>
  C2. A call of the hook \<open>requestTimeoutRetry\<close>: with \<open>remoteReadTimeoutRetry\<close> set it
  resets the read deadline to \<open>now + timeout\<close> and returns true, the flags unchanged;
  otherwise, with \<open>remoteReadForceRetryNextTimeout\<close> set, it clears that flag, resets
  the read deadline and returns true; otherwise it returns false and changes neither
  the session nor the connection. \<open>enableRemoteReadTimeoutRetry\<close> sets
  \<open>remoteReadTimeoutRetry\<close> and leaves \<open>remoteReadForceRetryNextTimeout\<close> as it is;
  \<open>disableRemoteReadTimeoutRetry\<close> clears \<open>remoteReadTimeoutRetry\<close> and sets
  \<open>remoteReadForceRetryNextTimeout\<close>.
\<close>

theorem requestTimeoutRetry_cases:
  "requestTimeoutRetry timeout now d s =
     (if remoteReadTimeoutRetry d
      then (True, d, s\<lparr>readDeadline := Some (now + timeout)\<rparr>)
      else if remoteReadForceRetryNextTimeout d
      then (True, d\<lparr>remoteReadForceRetryNextTimeout := False\<rparr>,
            s\<lparr>readDeadline := Some (now + timeout)\<rparr>)
      else (False, d, s))
   \<and> remoteReadTimeoutRetry (enableRemoteReadTimeoutRetry d) = True
   \<and> remoteReadForceRetryNextTimeout (enableRemoteReadTimeoutRetry d)
       = remoteReadForceRetryNextTimeout d
   \<and> remoteReadTimeoutRetry (disableRemoteReadTimeoutRetry d) = False
   \<and> remoteReadForceRetryNextTimeout (disableRemoteReadTimeoutRetry d) = True"
  by (simp add: requestTimeoutRetry_def SetReadDeadline_def
      enableRemoteReadTimeoutRetry_def disableRemoteReadTimeoutRetry_def)

text \<open>
  C1, as the claim states it, fails: the first call of the hook after
  \<open>clearConnInitialDeadline\<close> returns true, and the read that timed out is retried,
  so that \<open>Read\<close> returns the 7 bytes of the next read instead of the timeout.
\<close>

theorem clearConnInitialDeadline_retry_counterexample:
  "fst (requestTimeoutRetry 10 40
          (fst (clearConnInitialDeadline (newSSH exampleResponder) exampleConn))
          (snd (clearConnInitialDeadline (newSSH exampleResponder) exampleConn))) = True
   \<and> map_option fst
        (Read 10 (fst (clearConnInitialDeadline (newSSH exampleResponder) exampleConn))
           (snd (clearConnInitialDeadline (newSSH exampleResponder) exampleConn)))
       = Some (7, None)"
  by (simp add: clearConnInitialDeadline_def requestTimeoutRetry_def SetReadDeadline_def
      newSSH_def exampleConn_def sshEmptyTime_def)

text \<open>
  C1, amended. \<open>clearConnInitialDeadline\<close> clears the read deadline, clears
  \<open>remoteReadTimeoutRetry\<close> and sets \<open>remoteReadForceRetryNextTimeout\<close>. Of the calls
  of the hook that follow it (nothing else touching the two flags), the first returns
  true, consuming the flag and setting the read deadline again; every later one
  returns false. So \<open>Read\<close> retries the first read timeout after
  \<open>clearConnInitialDeadline\<close>, and the second one surfaces to its caller.
\<close>

theorem clearConnInitialDeadline_one_retry:
  "readDeadline (snd (clearConnInitialDeadline d s)) = None
   \<and> fst (requestTimeoutRetries timeout (now # nows)
            (fst (clearConnInitialDeadline d s)) (snd (clearConnInitialDeadline d s)))
       = True # replicate (length nows) False
   \<and> Read timeout (fst (clearConnInitialDeadline d s))
        (snd (clearConnInitialDeadline d s)
           \<lparr>connReads := (t1, n1, Some NetTimeout) # (t2, n2, Some NetTimeout) # rest\<rparr>)
       = Some ((n2, Some NetTimeout),
           fst (clearConnInitialDeadline d s)\<lparr>remoteReadForceRetryNextTimeout := False\<rparr>,
           s\<lparr>readDeadline := Some (t1 + timeout), connReads := rest\<rparr>)"
proof -
  obtain d0 s0 where c: "clearConnInitialDeadline d s = (d0, s0)"
    by (cases "clearConnInitialDeadline d s")
  then have flags: "\<not> remoteReadTimeoutRetry d0" "remoteReadForceRetryNextTimeout d0"
    and s0: "s0 = s\<lparr>readDeadline := None\<rparr>"
    by (auto simp: clearConnInitialDeadline_def SetReadDeadline_def sshEmptyTime_def)
  let ?d1 = "d0\<lparr>remoteReadForceRetryNextTimeout := False\<rparr>"
  have first: "requestTimeoutRetry timeout t d0 s' =
      (True, ?d1, s'\<lparr>readDeadline := Some (t + timeout)\<rparr>)" for t s'
    using flags by (simp add: requestTimeoutRetry_def SetReadDeadline_def)
  have later: "\<not> remoteReadTimeoutRetry ?d1" "\<not> remoteReadForceRetryNextTimeout ?d1"
    using flags by simp_all
  have refuse: "requestTimeoutRetry timeout t ?d1 s' = (False, ?d1, s')" for t s'
    using later by (simp add: requestTimeoutRetry_def)
  have "fst (requestTimeoutRetries timeout (now # nows) d0 s0)
      = True # replicate (length nows) False"
    by (simp add: first requestTimeoutRetries_refused [OF later])
  moreover have "Read timeout d0
      (s0\<lparr>connReads := (t1, n1, Some NetTimeout) # (t2, n2, Some NetTimeout) # rest\<rparr>)
    = Some ((n2, Some NetTimeout), ?d1,
        s\<lparr>readDeadline := Some (t1 + timeout), connReads := rest\<rparr>)"
    by (simp add: first refuse s0)
  moreover have "readDeadline s0 = None"
    by (simp add: s0)
  ultimately show ?thesis
    by (simp add: c)
qed


subsection \<open>Reading a frame that arrives\<close>

lemma Fetch_arrives:
  assumes "frameArrives r" "\<not> Completed r"
  shows "\<exists>data r'. Fetch r k = Returned (Inr data, r') \<and> length data \<le> k
     \<and> length data \<le> rN r \<and> rN r' = rN r - length data
     \<and> available (rSrc r) = data @ available (rSrc r') \<and> frameArrives r'"
proof (cases "rSrc r" rule: srcSize.cases)
  case 1
  with assms show ?thesis by (simp add: frameArrives_def Completed_def)
next
  case (2 e rest)
  with assms show ?thesis by (simp add: frameArrives_def Completed_def)
next
  case (3 data rest)
  with assms show ?thesis
    by (auto simp: Fetch_def frameArrives_def Completed_def Remains_def Let_def min_def)
qed

lemma credentialLoop_arrives:
  "frameArrives r \<Longrightarrow> t \<le> n \<Longrightarrow>
   credentialLoop r n t buf =
     (if t + rN r \<le> n then (Returned (Inr (buf @ framePayload r)), snd (credentialLoop r n t buf))
      else (Returned (Inl ErrSSHCredentialDataTooLarge), snd (credentialLoop r n t buf)))"
proof (induction r n t buf rule: credentialLoop.induct)
  case (1 r n t buf)
  show ?case
  proof (cases "Completed r")
    case True
    then show ?thesis using "1.prems" by (simp add: framePayload_def Completed_def)
  next
    case False
    from Fetch_arrives [OF "1.prems"(1) False, of "Remains r"]
    obtain data r' where f: "Buffered r = Returned (Inr data, r')" "length data \<le> rN r"
      "rN r' = rN r - length data" "available (rSrc r) = data @ available (rSrc r')"
      "frameArrives r'"
      by (auto simp: Buffered_def)
    have p: "framePayload r = data @ framePayload r'"
      using f by (simp add: framePayload_def)
    show ?thesis
    proof (cases "t + length data > n")
      case True
      with False f show ?thesis by simp
    next
      case gt: False
      have ih: "credentialLoop r' n (t + length data) (buf @ data) =
        (if t + length data + rN r' \<le> n
         then (Returned (Inr ((buf @ data) @ framePayload r')),
               snd (credentialLoop r' n (t + length data) (buf @ data)))
         else (Returned (Inl ErrSSHCredentialDataTooLarge),
               snd (credentialLoop r' n (t + length data) (buf @ data))))"
        using "1.IH" [OF False f(1) refl refl refl _ f(5)] gt by simp
      have eq: "credentialLoop r n t buf = credentialLoop r' n (t + length data) (buf @ data)"
        using False f(1) gt by simp
      show ?thesis
        unfolding eq using f(2,3) p by (subst ih) auto
    qed
  qed
qed

lemma localRespondCredential_oversize:
  assumes "\<not> credentialProcessed d" "frameArrives r" "sshCredentialMaxSize < rN r"
  shows "localRespondCredential d r =
    (Returned (Some ErrSSHCredentialDataTooLarge), d\<lparr>credentialProcessed := True\<rparr>,
     snd (credentialLoop r sshCredentialMaxSize 0 []))"
proof -
  have "fst (credentialLoop r sshCredentialMaxSize 0 []) =
      Returned (Inl ErrSSHCredentialDataTooLarge)"
    using credentialLoop_arrives [OF assms(2), of 0 sshCredentialMaxSize "[]"] assms(3)
    by (metis add_0 fst_conv le0 not_less)
  then obtain r' where "credentialLoop r sshCredentialMaxSize 0 [] =
      (Returned (Inl ErrSSHCredentialDataTooLarge), r')"
    by (cases "credentialLoop r sshCredentialMaxSize 0 []") auto
  then show ?thesis
    using assms(1,3)
    by (simp add: localRespondCredential_def Remains_def Let_def del: credentialLoop.simps)
qed

lemma localRespondCredential_fits:
  assumes "\<not> credentialProcessed d" "frameArrives r" "rN r \<le> sshCredentialMaxSize"
    and "chan_send (credentialReceive d) (framePayload r) = Returned c"
  shows "localRespondCredential d r =
    (Returned None, d\<lparr>credentialProcessed := True, credentialReceive := c\<rparr>,
     snd (credentialLoop r (rN r) 0 []))"
proof -
  have "fst (credentialLoop r (rN r) 0 []) = Returned (Inr (framePayload r))"
    using credentialLoop_arrives [OF assms(2), of 0 "rN r" "[]"]
    by (metis add_0 append_Nil fst_conv le0 order_refl)
  then obtain r' where "credentialLoop r (rN r) 0 [] = (Returned (Inr (framePayload r)), r')"
    by (cases "credentialLoop r (rN r) 0 []") auto
  then show ?thesis
    using assms(1,3,4)
    by (simp add: localRespondCredential_def Remains_def Let_def del: credentialLoop.simps)
qed

lemma local_RespondCredential:
  "local d r SSHClientRespondCredential b evs = localRespondCredential d r"
  by (simp add: local_def SSHClientRespondCredential_def SSHClientStdIn_def
      SSHClientResize_def SSHClientRespondFingerprint_def)

lemma localRespondCredential_processed:
  "credentialProcessed d \<Longrightarrow>
   localRespondCredential d r = (Returned (Some ErrSSHUnexpectedCredentialDataRespond), d, r)"
  by (simp add: localRespondCredential_def)

lemma exampleCredentialSession_processed: "credentialProcessed exampleCredentialSession"
proof -
  let ?d = "newSSH exampleResponder"
  let ?c = "(credentialReceive ?d)\<lparr>chBuf := chBuf (credentialReceive ?d) @ [framePayload exampleSmallFrame],
      chSent := chSent (credentialReceive ?d) @ [framePayload exampleSmallFrame]\<rparr>"
  have "localRespondCredential ?d exampleSmallFrame =
      (Returned None, ?d\<lparr>credentialProcessed := True, credentialReceive := ?c\<rparr>,
       snd (credentialLoop exampleSmallFrame (rN exampleSmallFrame) 0 []))"
    by (intro localRespondCredential_fits)
       (simp_all add: newSSH_def make_chan_def chan_send_def frameArrives_def
         exampleSmallFrame_def sshCredentialMaxSize_def)
  then show ?thesis
    by (simp add: exampleCredentialSession_def local_RespondCredential)
qed

text \<open>
  C4, as the claim states it, fails for an oversize \<open>RespondCredential\<close> frame that
  reaches a session which has handled a \<open>RespondCredential\<close> frame before: the
  handler returns "unexpected credential data respond", not "credential was too
  large".
\<close>

theorem local_RespondCredential_processed_counterexample:
  "sshCredentialMaxSize < rN exampleOversizeFrame
   \<and> fst (local exampleCredentialSession exampleOversizeFrame SSHClientRespondCredential [] [])
       = Returned (Some ErrSSHUnexpectedCredentialDataRespond)
   \<and> fst (local exampleCredentialSession exampleOversizeFrame SSHClientRespondCredential [] [])
       \<noteq> Returned (Some ErrSSHCredentialDataTooLarge)"
  by (simp add: local_RespondCredential
      localRespondCredential_processed [OF exampleCredentialSession_processed]
      exampleOversizeFrame_def sshCredentialMaxSize_def)

text \<open>
  C4, amended. A \<open>RespondCredential\<close> frame reaches a session that has not processed a
  credential yet, and its payload arrives. When the payload is longer than
  \<open>sshCredentialMaxSize = 4096\<close> bytes the handler returns "credential was too large"
  and \<open>credentialReceive\<close> is as it was: nothing is sent. When the payload has at most
  4096 bytes (and \<open>credentialReceive\<close> is open with room for a value, as it is while
  no credential was processed) the handler returns no error and has sent exactly the
  whole payload on \<open>credentialReceive\<close>. A \<open>RespondCredential\<close> frame of any size
  that reaches a session which has processed a credential is rejected with "unexpected
  credential data respond", the session and the reader left as they were.
\<close>

theorem local_RespondCredential_size:
  "sshCredentialMaxSize = 4096
   \<and> errorText ErrSSHCredentialDataTooLarge = ''credential was too large''
   \<and> (\<not> credentialProcessed d \<and> frameArrives r \<and> sshCredentialMaxSize < rN r \<longrightarrow>
        fst (local d r SSHClientRespondCredential b evs)
          = Returned (Some ErrSSHCredentialDataTooLarge)
        \<and> credentialReceive (fst (snd (local d r SSHClientRespondCredential b evs)))
          = credentialReceive d)
   \<and> (\<not> credentialProcessed d \<and> frameArrives r \<and> rN r \<le> sshCredentialMaxSize
        \<and> \<not> chClosed (credentialReceive d)
        \<and> length (chBuf (credentialReceive d)) < chCap (credentialReceive d) \<longrightarrow>
        fst (local d r SSHClientRespondCredential b evs) = Returned None
        \<and> length (framePayload r) = rN r
        \<and> chBuf (credentialReceive (fst (snd (local d r SSHClientRespondCredential b evs))))
          = chBuf (credentialReceive d) @ [framePayload r]
        \<and> chSent (credentialReceive (fst (snd (local d r SSHClientRespondCredential b evs))))
          = chSent (credentialReceive d) @ [framePayload r])
   \<and> (credentialProcessed d \<longrightarrow>
        local d r SSHClientRespondCredential b evs
          = (Returned (Some ErrSSHUnexpectedCredentialDataRespond), d, r))"
proof (intro conjI impI)
  show "sshCredentialMaxSize = 4096"
    by (simp add: sshCredentialMaxSize_def)
  show "errorText ErrSSHCredentialDataTooLarge = ''credential was too large''"
    by simp
next
  assume a: "\<not> credentialProcessed d \<and> frameArrives r \<and> sshCredentialMaxSize < rN r"
  then have eq: "localRespondCredential d r =
      (Returned (Some ErrSSHCredentialDataTooLarge), d\<lparr>credentialProcessed := True\<rparr>,
       snd (credentialLoop r sshCredentialMaxSize 0 []))"
    by (intro localRespondCredential_oversize) simp_all
  show "fst (local d r SSHClientRespondCredential b evs)
      = Returned (Some ErrSSHCredentialDataTooLarge)"
    by (simp only: local_RespondCredential eq fst_conv)
  show "credentialReceive (fst (snd (local d r SSHClientRespondCredential b evs)))
      = credentialReceive d"
    by (simp only: local_RespondCredential eq fst_conv snd_conv) simp
next
  assume a: "\<not> credentialProcessed d \<and> frameArrives r \<and> rN r \<le> sshCredentialMaxSize
      \<and> \<not> chClosed (credentialReceive d)
      \<and> length (chBuf (credentialReceive d)) < chCap (credentialReceive d)"
  let ?c = "(credentialReceive d)\<lparr>chBuf := chBuf (credentialReceive d) @ [framePayload r],
      chSent := chSent (credentialReceive d) @ [framePayload r]\<rparr>"
  have send: "chan_send (credentialReceive d) (framePayload r) = Returned ?c"
    using a by (simp add: chan_send_def)
  have eq: "localRespondCredential d r =
      (Returned None, d\<lparr>credentialProcessed := True, credentialReceive := ?c\<rparr>,
       snd (credentialLoop r (rN r) 0 []))"
    using a send by (intro localRespondCredential_fits) simp_all
  show "fst (local d r SSHClientRespondCredential b evs) = Returned None"
    by (simp only: local_RespondCredential eq fst_conv)
  show "length (framePayload r) = rN r"
    using a by (simp add: framePayload_def frameArrives_def)
  show "chBuf (credentialReceive (fst (snd (local d r SSHClientRespondCredential b evs))))
      = chBuf (credentialReceive d) @ [framePayload r]"
    by (simp only: local_RespondCredential eq fst_conv snd_conv) simp
  show "chSent (credentialReceive (fst (snd (local d r SSHClientRespondCredential b evs))))
      = chSent (credentialReceive d) @ [framePayload r]"
    by (simp only: local_RespondCredential eq fst_conv snd_conv) simp
next
  assume "credentialProcessed d"
  then show "local d r SSHClientRespondCredential b evs
      = (Returned (Some ErrSSHUnexpectedCredentialDataRespond), d, r)"
    by (simp add: local_RespondCredential localRespondCredential_processed)
qed

theorem local_RespondCredential_size_witness:
  "\<not> credentialProcessed (newSSH exampleResponder)
   \<and> frameArrives exampleOversizeFrame \<and> sshCredentialMaxSize < rN exampleOversizeFrame
   \<and> fst (local (newSSH exampleResponder) exampleOversizeFrame SSHClientRespondCredential [] [])
       = Returned (Some ErrSSHCredentialDataTooLarge)
   \<and> chSent (credentialReceive (fst (snd
        (local (newSSH exampleResponder) exampleOversizeFrame SSHClientRespondCredential [] []))))
       = []
   \<and> frameArrives exampleSmallFrame \<and> rN exampleSmallFrame \<le> sshCredentialMaxSize
   \<and> \<not> chClosed (credentialReceive (newSSH exampleResponder))
   \<and> length (chBuf (credentialReceive (newSSH exampleResponder)))
       < chCap (credentialReceive (newSSH exampleResponder))
   \<and> fst (local (newSSH exampleResponder) exampleSmallFrame SSHClientRespondCredential [] [])
       = Returned None
   \<and> chSent (credentialReceive (fst (snd
        (local (newSSH exampleResponder) exampleSmallFrame SSHClientRespondCredential [] []))))
       = [[1, 2, 3]]
   \<and> credentialProcessed exampleCredentialSession
   \<and> fst (local exampleCredentialSession exampleSmallFrame SSHClientRespondCredential [] [])
       = Returned (Some ErrSSHUnexpectedCredentialDataRespond)"
proof -
  have h: "\<not> credentialProcessed (newSSH exampleResponder)"
    "frameArrives exampleOversizeFrame" "sshCredentialMaxSize < rN exampleOversizeFrame"
    "frameArrives exampleSmallFrame" "rN exampleSmallFrame \<le> sshCredentialMaxSize"
    "\<not> chClosed (credentialReceive (newSSH exampleResponder))"
    "length (chBuf (credentialReceive (newSSH exampleResponder)))
       < chCap (credentialReceive (newSSH exampleResponder))"
    "chSent (credentialReceive (newSSH exampleResponder)) = []"
    "framePayload exampleSmallFrame = [1, 2, 3]"
    by (simp_all add: newSSH_def make_chan_def frameArrives_def framePayload_def
        exampleOversizeFrame_def exampleSmallFrame_def sshCredentialMaxSize_def)
  show ?thesis
    using h exampleCredentialSession_processed
      local_RespondCredential_size [of "newSSH exampleResponder" exampleOversizeFrame "[]" "[]"]
      local_RespondCredential_size [of "newSSH exampleResponder" exampleSmallFrame "[]" "[]"]
      local_RespondCredential_size [of exampleCredentialSession exampleSmallFrame "[]" "[]"]
    by simp
qed


subsection \<open>Window resize\<close>

lemma be16: "push_bit 8 (uint (x::byte)) OR uint (y::byte) = 256 * uint x + uint y"
proof -
  have "\<not> bit (push_bit 8 (uint x)) n \<or> \<not> bit (uint y) n" for n
    by (auto simp: bit_push_bit_iff bit_uint_iff dest: bit_imp_le_length)
  then have "push_bit 8 (uint x) + uint y = push_bit 8 (uint x) OR uint y"
    by (rule disjunctive_add)
  then show ?thesis
    by (simp add: push_bit_eq_mult)
qed

lemma ReadAtLeast_arrives:
  "frameArrives r \<Longrightarrow> k \<le> length acc + rN r \<Longrightarrow>
   \<exists>r'. ReadAtLeast r k acc = Returned (Inr (acc @ take (k - length acc) (framePayload r)), r')
     \<and> rN r' = rN r - (k - length acc)"
proof (induction r k acc rule: ReadAtLeast.induct)
  case (1 r k acc)
  show ?case
  proof (cases "k \<le> length acc")
    case True
    then show ?thesis by simp
  next
    case False
    then have nc: "\<not> Completed r"
      using "1.prems" by (simp add: Completed_def)
    from Fetch_arrives [OF "1.prems"(1) nc, of "k - length acc"]
    obtain data r' where f: "Fetch r (k - length acc) = Returned (Inr data, r')"
      "length data \<le> k - length acc" "length data \<le> rN r"
      "rN r' = rN r - length data" "available (rSrc r) = data @ available (rSrc r')"
      "frameArrives r'"
      by auto
    have p: "framePayload r = data @ framePayload r'"
      using f by (simp add: framePayload_def)
    have "k \<le> length (acc @ data) + rN r'"
      using f "1.prems" by simp
    then have "\<exists>r''. ReadAtLeast r' k (acc @ data) =
        Returned (Inr ((acc @ data) @ take (k - length (acc @ data)) (framePayload r')), r'')
        \<and> rN r'' = rN r' - (k - length (acc @ data))"
      using f(1,6) False
      by (intro "1.IH") (simp_all add: LimitedReader_Read_def)
    then obtain r'' where ih: "ReadAtLeast r' k (acc @ data) =
        Returned (Inr ((acc @ data) @ take (k - length (acc @ data)) (framePayload r')), r'')"
        "rN r'' = rN r' - (k - length (acc @ data))"
      by auto
    have "ReadAtLeast r k acc = ReadAtLeast r' k (acc @ data)"
      using False f(1) by (simp add: LimitedReader_Read_def)
    then show ?thesis
      using ih f p by (auto simp: take_add)
  qed
qed


lemma local_Resize: "local d r SSHClientResize b evs = localResize d r b evs"
  by (simp add: local_def SSHClientStdIn_def SSHClientResize_def)

lemma be16_value:
  "0 \<le> v \<Longrightarrow> v \<le> 65535 \<Longrightarrow>
   256 * uint (of_int (v div 256) :: byte) + uint (of_int (v mod 256) :: byte) = v"
proof -
  assume a: "0 \<le> v" "v \<le> 65535"
  then have "v div 256 < 256" "0 \<le> v div 256" by auto
  then have "(v div 256) mod 256 = v div 256" by simp
  then show ?thesis
    by (simp add: uint_word_of_int)
qed

lemma remoteDo_controlFields:
  "remoteDo e d = Returned d' \<Longrightarrow> controlFields d' = controlFields d"
  by (cases e)
     (auto simp: controlFields_def wgDone_def callBaseCtxCancel_def Let_def chan_recv_def
       chan_send_def chan_close_def split: if_splits outcome.splits list.splits)

lemma awaitRemoteConn_controlFields:
  "awaitRemoteConn d evs = (out, d', evs') \<Longrightarrow> controlFields d' = controlFields d"
proof (induction evs arbitrary: d)
  case Nil
  then show ?case
    by (auto simp: controlFields_def split: outcome.splits)
next
  case (Cons e es)
  show ?case
  proof (cases "chan_recv (remoteConnReceive d)")
    case (Returned x)
    with Cons.prems show ?thesis
      by (auto simp: controlFields_def split: prod.splits)
  next
    case Blocked
    show ?thesis
    proof (cases "remoteDo e d")
      case (Returned d1)
      with Cons.prems Blocked have "awaitRemoteConn d1 es = (out, d', evs')" by simp
      from Cons.IH [OF this] remoteDo_controlFields [OF Returned] show ?thesis by simp
    next
      case Blocked
      with Cons.prems \<open>chan_recv (remoteConnReceive d) = Blocked\<close> show ?thesis by simp
    next
      case Panic
      with Cons.prems Blocked show ?thesis by simp
    qed
  next
    case Panic
    with Cons.prems show ?thesis by simp
  qed
qed

lemma getRemote_fields:
  assumes "getRemote d evs = (out, d', evs')"
  shows "rio d' = rio d \<and> dl d' = dl d"
proof (cases "isValid (remoteConn d)")
  case True
  with assms show ?thesis by (simp add: getRemote_def)
next
  case False
  obtain o1 d1 e1 where a: "awaitRemoteConn d evs = (o1, d1, e1)"
    by (cases "awaitRemoteConn d evs")
  from awaitRemoteConn_controlFields [OF a] have "rio d1 = rio d" "dl d1 = dl d"
    by (simp_all add: controlFields_def)
  with assms False a show ?thesis
    by (auto simp: getRemote_def split: outcome.splits option.splits)
qed

lemma getRemote_error:
  "getRemote d evs = (Returned (Inl e), d', evs') \<Longrightarrow> e = ErrSSHRemoteConnUnavailable"
  by (auto simp: getRemote_def split: if_splits prod.splits outcome.splits option.splits)

lemma localResize_obtained:
  assumes g: "getRemote d evs = (Returned (Inr rc), d1, evs')"
    and a: "frameArrives r" and b: "4 \<le> length b"
    and p: "take 4 (framePayload r) = [b0, b1, b2, b3]"
  shows "fst (localResize d r b evs) = Returned None
    \<and> rN (snd (snd (localResize d r b evs))) = rN r - 4
    \<and> windowChanges (rio (fst (snd (localResize d r b evs))))
        = windowChanges (rio d) @ [(256 * uint b0 + uint b1, 256 * uint b2 + uint b3)]
    \<and> dl (fst (snd (localResize d r b evs)))
        = dl d @ (case windowChangeResults (rio d) of
                    Some wcErr # rest \<Rightarrow>
                      [FailedToResize (256 * uint b0 + uint b1) (256 * uint b2 + uint b3) wcErr]
                  | _ \<Rightarrow> [])
    \<and> remoteConn (fst (snd (localResize d r b evs))) = remoteConn d1"
proof -
  have len: "4 \<le> rN r"
  proof -
    have "length (take 4 (framePayload r)) = 4" using p by simp
    then show ?thesis by (simp add: framePayload_def)
  qed
  from ReadAtLeast_arrives [OF a, of 4 "[]"] len
  obtain r' where rf: "ReadFull r 4 = Returned (Inr [b0, b1, b2, b3], r')" "rN r' = rN r - 4"
    using p by (auto simp: ReadFull_def)
  note f = getRemote_fields [OF g]
  show ?thesis
    using b f
    by (simp add: localResize_def g rf Let_def be16 WindowChange_def
        Debug_def split: list.splits option.splits)
qed

lemma localResize_unavailable:
  assumes g: "getRemote d evs = (Returned (Inl e), d1, evs')"
  shows "localResize d r b evs = (Returned (Some ErrSSHRemoteConnUnavailable), d1, r)
    \<and> rio d1 = rio d \<and> dl d1 = dl d"
  using getRemote_error [OF g] getRemote_fields [OF g] g by (simp add: localResize_def)

lemma ex_getRemote_publish:
  "getRemote exampleBootedSession [RemotePublish]
   = (Returned (Inr liveRemoteConn),
      exampleBootedSession\<lparr>remoteConnReceive :=
         (make_chan 1)\<lparr>chSent := [liveRemoteConn]\<rparr>, remoteConn := liveRemoteConn\<rparr>, [])"
  by (simp add: getRemote_def exampleBootedSession_def newSSH_def isValid_def nilRemoteConn_def
      make_chan_def chan_recv_def chan_send_def)

lemma ex_getRemote_exit:
  "fst (getRemote exampleBootedSession [RemoteExit]) = Returned (Inl ErrSSHRemoteConnUnavailable)"
  by (simp add: getRemote_def exampleBootedSession_def newSSH_def isValid_def nilRemoteConn_def
      make_chan_def chan_recv_def chan_close_def wgDone_def callBaseCtxCancel_def Signal_def)


text \<open>
  C7, as the claim states it, fails for a \<open>Resize\<close> frame that reaches a session whose
  remote task exits without having published a handle: \<open>getRemote\<close> finds
  \<open>remoteConnReceive\<close> closed, and the handler returns "remote SSH connection is
  unavailable" having read none of the 4 bytes and requested no window change.
\<close>

theorem local_Resize_unavailable_counterexample:
  "fst (local exampleBootedSession exampleResizeFrame SSHClientResize [0, 0, 0, 0] [RemoteExit])
     = Returned (Some ErrSSHRemoteConnUnavailable)
   \<and> rN (snd (snd
        (local exampleBootedSession exampleResizeFrame SSHClientResize [0, 0, 0, 0] [RemoteExit])))
     = 4
   \<and> windowChanges (rio (fst (snd
        (local exampleBootedSession exampleResizeFrame SSHClientResize [0, 0, 0, 0] [RemoteExit]))))
     = []"
proof -
  obtain d1 evs' where g: "getRemote exampleBootedSession [RemoteExit]
      = (Returned (Inl ErrSSHRemoteConnUnavailable), d1, evs')"
    using ex_getRemote_exit by (cases "getRemote exampleBootedSession [RemoteExit]") auto
  have "rio exampleBootedSession = newRemoteIO" "rN exampleResizeFrame = 4"
    by (simp_all add: exampleBootedSession_def newSSH_def exampleResizeFrame_def)
  then show ?thesis
    using localResize_unavailable [OF g, of exampleResizeFrame "[0, 0, 0, 0]"]
    by (simp add: local_Resize newRemoteIO_def)
qed

text \<open>
  C7, amended. A \<open>Resize\<close> frame reaches a session for which \<open>getRemote\<close> yields the
  remote handle (the cached one, or the one it receives from \<open>remoteConnReceive\<close>), the
  payload of the frame arrives and starts with the four bytes that encode \<open>rows\<close> and
  \<open>cols\<close> big-endian, both in [0, 65535]. The handler reads exactly 4 bytes of the
  payload, calls \<open>WindowChange rows cols\<close> with exactly these numbers, and returns no
  error; when \<open>WindowChange\<close> fails, the failure is logged and the handler still
  returns no error. When \<open>getRemote\<close> fails, the handler returns "remote SSH
  connection is unavailable", reads nothing of the payload and requests no window
  change.
\<close>

theorem local_Resize_window_change:
  "(fst (getRemote d evs) = Returned (Inr rc) \<and> frameArrives r \<and> 4 \<le> length b
     \<and> 0 \<le> rows \<and> rows \<le> 65535 \<and> 0 \<le> cols \<and> cols \<le> 65535
     \<and> take 4 (framePayload r) = resizePayload rows cols \<longrightarrow>
       fst (local d r SSHClientResize b evs) = Returned None
       \<and> rN (snd (snd (local d r SSHClientResize b evs))) = rN r - 4
       \<and> windowChanges (rio (fst (snd (local d r SSHClientResize b evs))))
           = windowChanges (rio d) @ [(rows, cols)]
       \<and> dl (fst (snd (local d r SSHClientResize b evs)))
           = dl d @ (case windowChangeResults (rio d) of
                       Some wcErr # rest \<Rightarrow> [FailedToResize rows cols wcErr]
                     | _ \<Rightarrow> []))
   \<and> (fst (getRemote d evs) = Returned (Inl e) \<longrightarrow>
       fst (local d r SSHClientResize b evs) = Returned (Some ErrSSHRemoteConnUnavailable)
       \<and> snd (snd (local d r SSHClientResize b evs)) = r
       \<and> rio (fst (snd (local d r SSHClientResize b evs))) = rio d
       \<and> dl (fst (snd (local d r SSHClientResize b evs))) = dl d)"
proof (intro conjI impI)
  assume h: "fst (getRemote d evs) = Returned (Inr rc) \<and> frameArrives r \<and> 4 \<le> length b
     \<and> 0 \<le> rows \<and> rows \<le> 65535 \<and> 0 \<le> cols \<and> cols \<le> 65535
     \<and> take 4 (framePayload r) = resizePayload rows cols"
  then obtain d1 evs' where g: "getRemote d evs = (Returned (Inr rc), d1, evs')"
    by (cases "getRemote d evs") auto
  from h have p: "take 4 (framePayload r) = [of_int (rows div 256), of_int (rows mod 256),
      of_int (cols div 256), of_int (cols mod 256)]"
    by (simp add: resizePayload_def)
  from h have v: "256 * uint (of_int (rows div 256) :: byte) + uint (of_int (rows mod 256) :: byte)
      = rows"
    "256 * uint (of_int (cols div 256) :: byte) + uint (of_int (cols mod 256) :: byte) = cols"
    by (simp_all add: be16_value)
  note l = localResize_obtained [OF g _ _ p, of b]
  show "fst (local d r SSHClientResize b evs) = Returned None"
    using l h by (simp add: local_Resize)
  show "rN (snd (snd (local d r SSHClientResize b evs))) = rN r - 4"
    using l h by (simp add: local_Resize)
  show "windowChanges (rio (fst (snd (local d r SSHClientResize b evs))))
           = windowChanges (rio d) @ [(rows, cols)]"
    using l h v by (simp add: local_Resize)
  show "dl (fst (snd (local d r SSHClientResize b evs)))
           = dl d @ (case windowChangeResults (rio d) of
                       Some wcErr # rest \<Rightarrow> [FailedToResize rows cols wcErr]
                     | _ \<Rightarrow> [])"
    using l h v by (simp add: local_Resize split: list.splits option.splits)
next
  assume "fst (getRemote d evs) = Returned (Inl e)"
  then obtain d1 evs' where g: "getRemote d evs = (Returned (Inl e), d1, evs')"
    by (cases "getRemote d evs") auto
  note l = localResize_unavailable [OF g, of r b]
  show "fst (local d r SSHClientResize b evs) = Returned (Some ErrSSHRemoteConnUnavailable)"
    using l by (simp add: local_Resize)
  show "snd (snd (local d r SSHClientResize b evs)) = r"
    using l by (simp add: local_Resize)
  show "rio (fst (snd (local d r SSHClientResize b evs))) = rio d"
    using l by (simp add: local_Resize)
  show "dl (fst (snd (local d r SSHClientResize b evs))) = dl d"
    using l by (simp add: local_Resize)
qed

theorem local_Resize_window_change_witness:
  "fst (getRemote exampleBootedSession [RemotePublish]) = Returned (Inr liveRemoteConn)
   \<and> frameArrives exampleResizeFrame \<and> 4 \<le> length [0, 0, 0, 0 :: byte]
   \<and> take 4 (framePayload exampleResizeFrame) = resizePayload 24 80
   \<and> resizePayload 24 80 = [0x00, 0x18, 0x00, 0x50]
   \<and> fst (local exampleBootedSession exampleResizeFrame SSHClientResize [0, 0, 0, 0]
             [RemotePublish])
       = Returned None
   \<and> rN (snd (snd (local exampleBootedSession exampleResizeFrame SSHClientResize [0, 0, 0, 0]
             [RemotePublish])))
       = 0
   \<and> windowChanges (rio (fst (snd
         (local exampleBootedSession exampleResizeFrame SSHClientResize [0, 0, 0, 0]
            [RemotePublish]))))
       = [(24, 80)]
   \<and> fst (getRemote exampleLiveSession []) = Returned (Inr liveRemoteConn)
   \<and> fst (local exampleLiveSession exampleResizeFrame SSHClientResize [0, 0, 0, 0] [])
       = Returned None
   \<and> windowChanges (rio (fst (snd
         (local exampleLiveSession exampleResizeFrame SSHClientResize [0, 0, 0, 0] []))))
       = [(24, 80)]
   \<and> dl (fst (snd (local exampleLiveSession exampleResizeFrame SSHClientResize [0, 0, 0, 0] [])))
       = [FailedToResize 24 80 (ErrExternal ''resize refused'')]
   \<and> fst (getRemote exampleBootedSession [RemoteExit])
       = Returned (Inl ErrSSHRemoteConnUnavailable)
   \<and> fst (local exampleBootedSession exampleResizeFrame SSHClientResize [0, 0, 0, 0]
             [RemoteExit])
       = Returned (Some ErrSSHRemoteConnUnavailable)"
proof -
  have h: "fst (getRemote exampleBootedSession [RemotePublish]) = Returned (Inr liveRemoteConn)"
    "frameArrives exampleResizeFrame" "4 \<le> length [0, 0, 0, 0 :: byte]"
    "take 4 (framePayload exampleResizeFrame) = resizePayload 24 80"
    "resizePayload 24 80 = [0x00, 0x18, 0x00, 0x50]"
    "fst (getRemote exampleLiveSession []) = Returned (Inr liveRemoteConn)"
    "fst (getRemote exampleBootedSession [RemoteExit])
       = Returned (Inl ErrSSHRemoteConnUnavailable)"
  proof -
    show "fst (getRemote exampleBootedSession [RemotePublish]) = Returned (Inr liveRemoteConn)"
      by (simp add: ex_getRemote_publish)
    show "fst (getRemote exampleBootedSession [RemoteExit])
       = Returned (Inl ErrSSHRemoteConnUnavailable)"
      by (rule ex_getRemote_exit)
    show "fst (getRemote exampleLiveSession []) = Returned (Inr liveRemoteConn)"
      by (simp add: getRemote_def exampleLiveSession_def isValid_def liveRemoteConn_def)
  qed (simp_all add: exampleResizeFrame_def frameArrives_def framePayload_def
      resizePayload_def)
  have s: "windowChanges (rio exampleLiveSession) = []" "dl exampleLiveSession = []"
    "windowChangeResults (rio exampleLiveSession) = [Some (ErrExternal ''resize refused'')]"
    "rN exampleResizeFrame = 4" "windowChanges (rio exampleBootedSession) = []"
    by (simp_all add: exampleLiveSession_def exampleBootedSession_def exampleResizeFrame_def
        newSSH_def newRemoteIO_def)
  show ?thesis
    using h s
      local_Resize_window_change [of exampleBootedSession "[RemotePublish]" liveRemoteConn
        exampleResizeFrame "[0, 0, 0, 0]" 24 80]
      local_Resize_window_change [of exampleLiveSession "[]" liveRemoteConn
        exampleResizeFrame "[0, 0, 0, 0]" 24 80]
      local_Resize_window_change [where d = exampleBootedSession and evs = "[RemoteExit]"
        and e = ErrSSHRemoteConnUnavailable and r = exampleResizeFrame and b = "[0, 0, 0, 0]"]
    by simp
qed

subsection \<open>Standard input\<close>











subsection \<open>Bootup\<close>

text \<open>
  C6. \<open>Bootup\<close> parses the user name, then the address from where the first parse
  left the reader, then fetches one byte from where the second parse left it. A failed
  user-name parse gives an error with code 0x01; a failed address parse, or an empty
  address string, code 0x02; a failed fetch of the auth byte, or an auth byte other than
  0x00, 0x01 and 0x02, code 0x03; each leaves the session as it was. Otherwise
  \<open>Bootup\<close> returns the local handler as the next state with no error, and the remote
  task has been started with the user name, the address and the builder of the auth
  method.
\<close>

theorem Bootup_error_codes:
  "SSHRequestErrorBadUserName = 0x01 \<and> SSHRequestErrorBadRemoteAddress = 0x02
   \<and> SSHRequestErrorBadAuthMethod = 0x03
   \<and> SSHAuthMethodNone = 0x00 \<and> SSHAuthMethodPassphrase = 0x01
   \<and> SSHAuthMethodPrivateKey = 0x02
   \<and> (ParseString r b = Returned (Inl e, r1) \<longrightarrow>
        Bootup ParseString ParseAddress d r b
          = (Returned (None, ToFSMError e SSHRequestErrorBadUserName), d, r1))
   \<and> (ParseString r b = Returned (Inr userName, r1)
        \<and> ParseAddress r1 b = Returned (Inl e, r2) \<longrightarrow>
        Bootup ParseString ParseAddress d r b
          = (Returned (None, ToFSMError e SSHRequestErrorBadRemoteAddress), d, r2))
   \<and> (ParseString r b = Returned (Inr userName, r1)
        \<and> ParseAddress r1 b = Returned (Inr [], r2) \<longrightarrow>
        Bootup ParseString ParseAddress d r b
          = (Returned (None, ToFSMError ErrSSHInvalidAddress SSHRequestErrorBadRemoteAddress),
             d, r2))
   \<and> (ParseString r b = Returned (Inr userName, r1)
        \<and> ParseAddress r1 b = Returned (Inr addrStr, r2) \<and> addrStr \<noteq> []
        \<and> FetchOneByte r2 = Returned (Inl e, r3) \<longrightarrow>
        Bootup ParseString ParseAddress d r b
          = (Returned (None, ToFSMError e SSHRequestErrorBadAuthMethod), d, r3))
   \<and> (ParseString r b = Returned (Inr userName, r1)
        \<and> ParseAddress r1 b = Returned (Inr addrStr, r2) \<and> addrStr \<noteq> []
        \<and> FetchOneByte r2 = Returned (Inr rData, r3)
        \<and> rData ! 0 \<noteq> 0x00 \<and> rData ! 0 \<noteq> 0x01 \<and> rData ! 0 \<noteq> 0x02 \<longrightarrow>
        Bootup ParseString ParseAddress d r b
          = (Returned (None, ToFSMError ErrSSHInvalidAuthMethod SSHRequestErrorBadAuthMethod),
             d, r3))
   \<and> (ParseString r b = Returned (Inr userName, r1)
        \<and> ParseAddress r1 b = Returned (Inr addrStr, r2) \<and> addrStr \<noteq> []
        \<and> FetchOneByte r2 = Returned (Inr rData, r3)
        \<and> (rData ! 0 = 0x00 \<or> rData ! 0 = 0x01 \<or> rData ! 0 = 0x02) \<longrightarrow>
        (\<exists>authMethodBuilder.
           buildAuthMethod (rData ! 0) = Inr authMethodBuilder
           \<and> Bootup ParseString ParseAddress d r b
             = (Returned (Some StateLocal, NoFSMError),
                d\<lparr>remoteCloseWait := remoteCloseWait d + 1, remoteTask := Running,
                  remoteArgs := Some (userName, addrStr, authMethodBuilder)\<rparr>,
                r3)))"
proof -
  have codes: "SSHRequestErrorBadUserName = 0x01" "SSHRequestErrorBadRemoteAddress = 0x02"
    "SSHRequestErrorBadAuthMethod = 0x03" "SSHAuthMethodNone = 0x00"
    "SSHAuthMethodPassphrase = 0x01" "SSHAuthMethodPrivateKey = 0x02"
    by (simp_all add: SSHRequestErrorBadUserName_def SSHRequestErrorBadRemoteAddress_def
        SSHRequestErrorBadAuthMethod_def SSHAuthMethodNone_def SSHAuthMethodPassphrase_def
        SSHAuthMethodPrivateKey_def)
  have c1: "ParseString r b = Returned (Inl e, r1) \<longrightarrow>
      Bootup ParseString ParseAddress d r b
        = (Returned (None, ToFSMError e SSHRequestErrorBadUserName), d, r1)"
    by (simp add: Bootup_def)
  have c2: "ParseString r b = Returned (Inr userName, r1)
      \<and> ParseAddress r1 b = Returned (Inl e, r2) \<longrightarrow>
      Bootup ParseString ParseAddress d r b
        = (Returned (None, ToFSMError e SSHRequestErrorBadRemoteAddress), d, r2)"
    by (simp add: Bootup_def)
  have c3: "ParseString r b = Returned (Inr userName, r1)
      \<and> ParseAddress r1 b = Returned (Inr [], r2) \<longrightarrow>
      Bootup ParseString ParseAddress d r b
        = (Returned (None, ToFSMError ErrSSHInvalidAddress SSHRequestErrorBadRemoteAddress),
           d, r2)"
    by (simp add: Bootup_def)
  have c4: "ParseString r b = Returned (Inr userName, r1)
      \<and> ParseAddress r1 b = Returned (Inr addrStr, r2) \<and> addrStr \<noteq> []
      \<and> FetchOneByte r2 = Returned (Inl e, r3) \<longrightarrow>
      Bootup ParseString ParseAddress d r b
        = (Returned (None, ToFSMError e SSHRequestErrorBadAuthMethod), d, r3)"
    by (simp add: Bootup_def del: FetchOneByte.simps)
  have c5: "ParseString r b = Returned (Inr userName, r1)
      \<and> ParseAddress r1 b = Returned (Inr addrStr, r2) \<and> addrStr \<noteq> []
      \<and> FetchOneByte r2 = Returned (Inr rData, r3)
      \<and> rData ! 0 \<noteq> 0x00 \<and> rData ! 0 \<noteq> 0x01 \<and> rData ! 0 \<noteq> 0x02 \<longrightarrow>
      Bootup ParseString ParseAddress d r b
        = (Returned (None, ToFSMError ErrSSHInvalidAuthMethod SSHRequestErrorBadAuthMethod),
           d, r3)"
    by (simp add: Bootup_def buildAuthMethod_def codes del: FetchOneByte.simps)
  have c6: "ParseString r b = Returned (Inr userName, r1)
      \<and> ParseAddress r1 b = Returned (Inr addrStr, r2) \<and> addrStr \<noteq> []
      \<and> FetchOneByte r2 = Returned (Inr rData, r3)
      \<and> (rData ! 0 = 0x00 \<or> rData ! 0 = 0x01 \<or> rData ! 0 = 0x02) \<longrightarrow>
      (\<exists>authMethodBuilder.
         buildAuthMethod (rData ! 0) = Inr authMethodBuilder
         \<and> Bootup ParseString ParseAddress d r b
           = (Returned (Some StateLocal, NoFSMError),
              d\<lparr>remoteCloseWait := remoteCloseWait d + 1, remoteTask := Running,
                remoteArgs := Some (userName, addrStr, authMethodBuilder)\<rparr>,
              r3))"
  proof
    assume a: "ParseString r b = Returned (Inr userName, r1)
      \<and> ParseAddress r1 b = Returned (Inr addrStr, r2) \<and> addrStr \<noteq> []
      \<and> FetchOneByte r2 = Returned (Inr rData, r3)
      \<and> (rData ! 0 = 0x00 \<or> rData ! 0 = 0x01 \<or> rData ! 0 = 0x02)"
    then obtain amb where amb: "buildAuthMethod (rData ! 0) = Inr amb"
      by (auto simp: buildAuthMethod_def codes)
    have "Bootup ParseString ParseAddress d r b
           = (Returned (Some StateLocal, NoFSMError),
              d\<lparr>remoteCloseWait := remoteCloseWait d + 1, remoteTask := Running,
                remoteArgs := Some (userName, addrStr, amb)\<rparr>,
              r3)"
      using a amb by (simp add: Bootup_def del: FetchOneByte.simps)
    with amb show "\<exists>authMethodBuilder.
         buildAuthMethod (rData ! 0) = Inr authMethodBuilder
         \<and> Bootup ParseString ParseAddress d r b
           = (Returned (Some StateLocal, NoFSMError),
              d\<lparr>remoteCloseWait := remoteCloseWait d + 1, remoteTask := Running,
                remoteArgs := Some (userName, addrStr, authMethodBuilder)\<rparr>,
              r3)"
      by blast
  qed
  from codes c1 c2 c3 c4 c5 c6 show ?thesis
    by (intro conjI)
qed

lemmas example_boot_eval = exampleParseString_def exampleBootFrame_def ReadFull_def
  LimitedReader_Read_def Fetch_def Completed_def Remains_def Let_def

theorem Bootup_error_codes_witness:
  "exampleParseString (exampleBootFrame []) [] = Returned (Inl ErrEOF, exampleBootFrame [])
   \<and> fst (Bootup exampleParseString exampleParseString (newSSH exampleResponder)
             (exampleBootFrame []) [])
       = Returned (None, ToFSMError ErrEOF 0x01)
   \<and> fst (Bootup exampleParseString exampleParseString (newSSH exampleResponder)
             (exampleBootFrame [2, 0x61, 0x6c]) [])
       = Returned (None, ToFSMError ErrEOF 0x02)
   \<and> fst (Bootup exampleParseString exampleParseString (newSSH exampleResponder)
             (exampleBootFrame [2, 0x61, 0x6c, 0, 1]) [])
       = Returned (None, ToFSMError ErrSSHInvalidAddress 0x02)
   \<and> fst (Bootup exampleParseString exampleParseString (newSSH exampleResponder)
             (exampleBootFrame [2, 0x61, 0x6c, 1, 0x68]) [])
       = Returned (None, ToFSMError ErrEOF 0x03)
   \<and> fst (Bootup exampleParseString exampleParseString (newSSH exampleResponder)
             (exampleBootFrame [2, 0x61, 0x6c, 1, 0x68, 7]) [])
       = Returned (None, ToFSMError ErrSSHInvalidAuthMethod 0x03)
   \<and> fst (Bootup exampleParseString exampleParseString (newSSH exampleResponder)
             (exampleBootFrame [2, 0x61, 0x6c, 1, 0x68, 1]) [])
       = Returned (Some StateLocal, NoFSMError)
   \<and> remoteArgs (fst (snd (Bootup exampleParseString exampleParseString
         (newSSH exampleResponder) (exampleBootFrame [2, 0x61, 0x6c, 1, 0x68, 1]) [])))
       = Some ([0x61, 0x6c], [0x68], BuildPassphrase)"
proof -
  let ?P = exampleParseString
  let ?d = "newSSH exampleResponder"
  let ?r1 = "\<lparr>rN = 0, rSrc = []\<rparr>"
  have u0: "?P (exampleBootFrame []) [] = Returned (Inl ErrEOF, exampleBootFrame [])"
    by (simp add: example_boot_eval)
  have u: "?P (exampleBootFrame [2, 0x61, 0x6c]) [] = Returned (Inr [0x61, 0x6c], ?r1)"
    "?P (exampleBootFrame [2, 0x61, 0x6c, 0, 1]) []
       = Returned (Inr [0x61, 0x6c], \<lparr>rN = 2, rSrc = [Inr [0, 1]]\<rparr>)"
    "?P (exampleBootFrame [2, 0x61, 0x6c, 1, 0x68]) []
       = Returned (Inr [0x61, 0x6c], \<lparr>rN = 2, rSrc = [Inr [1, 0x68]]\<rparr>)"
    "?P (exampleBootFrame [2, 0x61, 0x6c, 1, 0x68, 7]) []
       = Returned (Inr [0x61, 0x6c], \<lparr>rN = 3, rSrc = [Inr [1, 0x68, 7]]\<rparr>)"
    "?P (exampleBootFrame [2, 0x61, 0x6c, 1, 0x68, 1]) []
       = Returned (Inr [0x61, 0x6c], \<lparr>rN = 3, rSrc = [Inr [1, 0x68, 1]]\<rparr>)"
    by (simp_all add: example_boot_eval)
  have a: "?P ?r1 [] = Returned (Inl ErrEOF, ?r1)"
    "?P \<lparr>rN = 2, rSrc = [Inr [0, 1]]\<rparr> [] = Returned (Inr [], \<lparr>rN = 1, rSrc = [Inr [1]]\<rparr>)"
    "?P \<lparr>rN = 2, rSrc = [Inr [1, 0x68]]\<rparr> [] = Returned (Inr [0x68], ?r1)"
    "?P \<lparr>rN = 3, rSrc = [Inr [1, 0x68, 7]]\<rparr> []
       = Returned (Inr [0x68], \<lparr>rN = 1, rSrc = [Inr [7]]\<rparr>)"
    "?P \<lparr>rN = 3, rSrc = [Inr [1, 0x68, 1]]\<rparr> []
       = Returned (Inr [0x68], \<lparr>rN = 1, rSrc = [Inr [1]]\<rparr>)"
    by (simp_all add: example_boot_eval)
  have f: "FetchOneByte ?r1 = Returned (Inl ErrEOF, ?r1)"
    "FetchOneByte \<lparr>rN = 1, rSrc = [Inr [7]]\<rparr> = Returned (Inr [7], ?r1)"
    "FetchOneByte \<lparr>rN = 1, rSrc = [Inr [1]]\<rparr> = Returned (Inr [1], ?r1)"
    by (simp_all add: example_boot_eval)
  have b: "buildAuthMethod 1 = Inr BuildPassphrase"
    by (simp add: buildAuthMethod_def SSHAuthMethodNone_def SSHAuthMethodPassphrase_def)
  note codes = SSHRequestErrorBadUserName_def SSHRequestErrorBadRemoteAddress_def
    SSHRequestErrorBadAuthMethod_def SSHAuthMethodNone_def SSHAuthMethodPassphrase_def
    SSHAuthMethodPrivateKey_def
  note T = Bootup_error_codes [where ParseString = "?P" and ParseAddress = "?P" and d = "?d"
      and b = "[]" and userName = "[0x61, 0x6c]"]
  have c1: "fst (Bootup ?P ?P ?d (exampleBootFrame []) []) = Returned (None, ToFSMError ErrEOF 0x01)"
    using T [where r = "exampleBootFrame []" and e = ErrEOF and ?r1.0 = "exampleBootFrame []"] u0
    by (simp add: codes)
  have c2: "fst (Bootup ?P ?P ?d (exampleBootFrame [2, 0x61, 0x6c]) [])
      = Returned (None, ToFSMError ErrEOF 0x02)"
    using T [where r = "exampleBootFrame [2, 0x61, 0x6c]" and ?r1.0 = ?r1 and e = ErrEOF
        and ?r2.0 = ?r1] u(1) a(1)
    by (simp add: codes)
  have c3: "fst (Bootup ?P ?P ?d (exampleBootFrame [2, 0x61, 0x6c, 0, 1]) [])
      = Returned (None, ToFSMError ErrSSHInvalidAddress 0x02)"
    using T [where r = "exampleBootFrame [2, 0x61, 0x6c, 0, 1]"
        and ?r1.0 = "\<lparr>rN = 2, rSrc = [Inr [0, 1]]\<rparr>"
        and ?r2.0 = "\<lparr>rN = 1, rSrc = [Inr [1]]\<rparr>"] u(2) a(2)
    by (simp add: codes)
  have c4: "fst (Bootup ?P ?P ?d (exampleBootFrame [2, 0x61, 0x6c, 1, 0x68]) [])
      = Returned (None, ToFSMError ErrEOF 0x03)"
    using T [where r = "exampleBootFrame [2, 0x61, 0x6c, 1, 0x68]" and e = ErrEOF
        and ?r1.0 = "\<lparr>rN = 2, rSrc = [Inr [1, 0x68]]\<rparr>" and ?r2.0 = ?r1
        and addrStr = "[0x68]" and ?r3.0 = ?r1] u(3) a(3) f(1)
    by (simp add: codes)
  have c5: "fst (Bootup ?P ?P ?d (exampleBootFrame [2, 0x61, 0x6c, 1, 0x68, 7]) [])
      = Returned (None, ToFSMError ErrSSHInvalidAuthMethod 0x03)"
    using T [where r = "exampleBootFrame [2, 0x61, 0x6c, 1, 0x68, 7]"
        and ?r1.0 = "\<lparr>rN = 3, rSrc = [Inr [1, 0x68, 7]]\<rparr>"
        and ?r2.0 = "\<lparr>rN = 1, rSrc = [Inr [7]]\<rparr>"
        and addrStr = "[0x68]" and ?r3.0 = ?r1 and rData = "[7]"] u(4) a(4) f(2)
    by (simp add: codes)
  have c6: "Bootup ?P ?P ?d (exampleBootFrame [2, 0x61, 0x6c, 1, 0x68, 1]) []
      = (Returned (Some StateLocal, NoFSMError),
         ?d\<lparr>remoteCloseWait := remoteCloseWait ?d + 1, remoteTask := Running,
             remoteArgs := Some ([0x61, 0x6c], [0x68], BuildPassphrase)\<rparr>, ?r1)"
    using T [where r = "exampleBootFrame [2, 0x61, 0x6c, 1, 0x68, 1]"
        and ?r1.0 = "\<lparr>rN = 3, rSrc = [Inr [1, 0x68, 1]]\<rparr>"
        and ?r2.0 = "\<lparr>rN = 1, rSrc = [Inr [1]]\<rparr>"
        and addrStr = "[0x68]" and ?r3.0 = ?r1 and rData = "[1]"] u(5) a(5) f(3) b
    by (simp add: codes)
  show ?thesis
    using u0 c1 c2 c3 c4 c5 c6 by simp
qed


subsection \<open>The invariant of a session\<close>

lemma chanInv_recv:
  "chanInv p k c \<Longrightarrow> chan_recv c = Returned (v, c') \<Longrightarrow> chanInv p k c'"
  by (cases "chBuf c") (auto simp: chanInv_def chan_recv_def split: if_splits)

lemma chan_recv_not_Panic: "chan_recv c \<noteq> Panic"
  by (simp add: chan_recv_def split: list.splits)

lemma remoteDo_credInv:
  "credInv d \<Longrightarrow> remoteDo e d = Returned d' \<Longrightarrow> credInv d'"
  by (cases e)
     (auto simp: credInv_def wgDone_def callBaseCtxCancel_def Let_def
       dest: chanInv_recv split: if_splits outcome.splits)

lemma remoteDo_fpInv:
  "fpInv d \<Longrightarrow> remoteDo e d = Returned d' \<Longrightarrow> fpInv d'"
  by (cases e)
     (auto simp: fpInv_def wgDone_def callBaseCtxCancel_def Let_def
       dest: chanInv_recv split: if_splits outcome.splits)

lemma remoteDo_ctxInv:
  "ctxInv d \<Longrightarrow> remoteDo e d = Returned d' \<Longrightarrow> ctxInv d'"
  by (cases e)
     (auto simp: ctxInv_def wgDone_def callBaseCtxCancel_def Let_def
       split: if_splits outcome.splits)

lemma taskInv_upd [simp]:
  "taskInv (d\<lparr>credentialReceive := c\<rparr>) = taskInv d"
  "taskInv (d\<lparr>fingerprintVerifyResultReceive := c'\<rparr>) = taskInv d"
  by (simp_all add: taskInv_def)

lemma remoteDo_taskInv:
  "taskInv d \<Longrightarrow> ctxInv d \<Longrightarrow> \<exists>d'. remoteDo e d = Returned d' \<and> taskInv d'"
proof (cases e)
  case RemoteReceiveCredential
  assume "taskInv d"
  then show ?thesis using RemoteReceiveCredential
    by (cases "chan_recv (credentialReceive d)") (auto simp: chan_recv_not_Panic)
next
  case RemoteReceiveFingerprint
  assume "taskInv d"
  then show ?thesis using RemoteReceiveFingerprint
    by (cases "chan_recv (fingerprintVerifyResultReceive d)") (auto simp: chan_recv_not_Panic)
next
  case RemotePublish
  assume i: "taskInv d"
  show ?thesis
  proof (cases "remoteTask d \<noteq> Running \<or> chSent (remoteConnReceive d) \<noteq> []")
    case True
    with i RemotePublish show ?thesis by auto
  next
    case False
    with i have f: "\<not> chClosed (remoteConnReceive d)" "chBuf (remoteConnReceive d) = []"
      "chCap (remoteConnReceive d) = 1"
      by (simp_all add: taskInv_def)
    let ?c = "(remoteConnReceive d)\<lparr>chBuf := [liveRemoteConn], chSent := [liveRemoteConn]\<rparr>"
    have s: "chan_send (remoteConnReceive d) liveRemoteConn = Returned ?c"
      using f False by (simp add: chan_send_def)
    have "taskInv (d\<lparr>remoteConnReceive := ?c\<rparr>)"
      using i False by (simp add: taskInv_def isValid_def liveRemoteConn_def)
    with s False RemotePublish show ?thesis by simp
  qed
next
  case RemoteStartStderrPump
  assume i: "taskInv d"
  show ?thesis
  proof (cases "remoteTask d \<noteq> Running \<or> chSent (remoteConnReceive d) = []
         \<or> stderrPump d \<noteq> NotStarted")
    case True
    with i RemoteStartStderrPump show ?thesis by auto
  next
    case False
    have "taskInv (d\<lparr>remoteCloseWait := remoteCloseWait d + 1, stderrPump := Running\<rparr>)"
      using i False by (simp add: taskInv_def)
    with False RemoteStartStderrPump show ?thesis by simp
  qed
next
  case RemoteStderrPumpExit
  assume i: "taskInv d"
  show ?thesis
  proof (cases "stderrPump d \<noteq> Running")
    case True
    with i RemoteStderrPumpExit show ?thesis by auto
  next
    case False
    then have n: "remoteCloseWait d \<noteq> 0" using i by (simp add: taskInv_def)
    have "taskInv (d\<lparr>remoteCloseWait := remoteCloseWait d - 1, stderrPump := Exited\<rparr>)"
      using i False by (simp add: taskInv_def)
    with False n RemoteStderrPumpExit show ?thesis by (simp add: wgDone_def)
  qed
next
  case RemoteExit
  assume i: "taskInv d"
  show ?thesis
  proof (cases "remoteTask d \<noteq> Running")
    case True
    with i RemoteExit show ?thesis by auto
  next
    case False
    then have n: "remoteCloseWait d \<noteq> 0" "\<not> chClosed (remoteConnReceive d)"
      using i by (simp_all add: taskInv_def)
    let ?c = "(remoteConnReceive d)\<lparr>chClosed := True,
        chCloses := Suc (chCloses (remoteConnReceive d))\<rparr>"
    let ?d1 = "callBaseCtxCancel (d\<lparr>dw := Signal (dw d) ''HeaderClose'', remoteConnReceive := ?c\<rparr>)"
    have r: "remoteCloseWait ?d1 = remoteCloseWait d" "baseCtxCancel ?d1"
      "remoteTask ?d1 = remoteTask d" "stderrPump ?d1 = stderrPump d"
      "remoteConnReceive ?d1 = ?c" "remoteConn ?d1 = remoteConn d"
      by (simp_all add: callBaseCtxCancel_def)
    have "taskInv (?d1\<lparr>remoteCloseWait := remoteCloseWait ?d1 - 1, remoteTask := Exited\<rparr>)"
      using i False r by (simp add: taskInv_def)
    moreover have "remoteDo RemoteExit d
        = Returned (?d1\<lparr>remoteCloseWait := remoteCloseWait ?d1 - 1, remoteTask := Exited\<rparr>)"
      using False n r(1) by (simp add: chan_close_def wgDone_def Let_def)
    ultimately show ?thesis using RemoteExit by simp
  qed
qed

lemma remoteDo_sessionInv:
  "sessionInv d \<Longrightarrow> \<exists>d'. remoteDo e d = Returned d' \<and> sessionInv d'"
  unfolding sessionInv_def
  using remoteDo_taskInv remoteDo_credInv remoteDo_fpInv remoteDo_ctxInv by blast

lemma recvConn_taskInv:
  assumes "taskInv d" "chan_recv (remoteConnReceive d) = Returned (v, c)"
  shows "taskInv (d\<lparr>remoteConnReceive := c\<rparr>)
    \<and> (\<forall>rc. v = Some rc \<longrightarrow> isValid rc \<and> remoteTask d \<noteq> NotStarted)
    \<and> (v = None \<longrightarrow> chClosed c \<and> chBuf c = [])"
proof (cases "chBuf (remoteConnReceive d)")
  case Nil
  with assms show ?thesis
    by (simp add: taskInv_def chan_recv_def split: if_splits)
next
  case (Cons x xs)
  with assms have "v = Some x" "c = (remoteConnReceive d)\<lparr>chBuf := xs\<rparr>"
    by (simp_all add: chan_recv_def)
  moreover have "chSent (remoteConnReceive d) \<noteq> []"
    using assms(1) Cons by (auto simp: taskInv_def)
  ultimately show ?thesis
    using assms(1) Cons by (simp add: taskInv_def)
qed

lemma recvConn_sessionInv:
  assumes "sessionInv d" "chan_recv (remoteConnReceive d) = Returned (v, c)"
  shows "sessionInv (d\<lparr>remoteConnReceive := c\<rparr>)
    \<and> controlFields (d\<lparr>remoteConnReceive := c\<rparr>) = controlFields d
    \<and> (\<forall>rc. v = Some rc \<longrightarrow> isValid rc \<and> remoteTask d \<noteq> NotStarted)
    \<and> (v = None \<longrightarrow> chClosed c \<and> chBuf c = [])"
proof -
  have "credInv (d\<lparr>remoteConnReceive := c\<rparr>)" "fpInv (d\<lparr>remoteConnReceive := c\<rparr>)"
    "ctxInv (d\<lparr>remoteConnReceive := c\<rparr>)"
    using assms(1) by (simp_all add: sessionInv_def credInv_def fpInv_def ctxInv_def)
  moreover have "taskInv d" using assms(1) by (simp add: sessionInv_def)
  moreover have "controlFields (d\<lparr>remoteConnReceive := c\<rparr>) = controlFields d"
    by (simp add: controlFields_def)
  ultimately show ?thesis
    using recvConn_taskInv [OF _ assms(2)] by (simp add: sessionInv_def)
qed

lemma awaitRemoteConn_sessionInv:
  "sessionInv d \<Longrightarrow> awaitRemoteConn d evs = (out, d', evs') \<Longrightarrow>
   sessionInv d' \<and> out \<noteq> Panic
   \<and> (\<forall>rc. out = Returned (Some rc) \<longrightarrow> isValid rc \<and> remoteTask d' \<noteq> NotStarted)
   \<and> (out = Returned None \<longrightarrow> chClosed (remoteConnReceive d') \<and> chBuf (remoteConnReceive d') = [])"
proof (induction evs arbitrary: d)
  case Nil
  show ?case
  proof (cases "chan_recv (remoteConnReceive d)")
    case (Returned x)
    obtain v c where x: "x = (v, c)" by (cases x)
    from recvConn_sessionInv [OF Nil(1) Returned [unfolded x]] Nil(2) Returned x
    show ?thesis by auto
  next
    case Blocked
    with Nil show ?thesis by auto
  next
    case Panic
    then show ?thesis by (simp add: chan_recv_not_Panic)
  qed
next
  case (Cons e es)
  show ?case
  proof (cases "chan_recv (remoteConnReceive d)")
    case (Returned x)
    obtain v c where x: "x = (v, c)" by (cases x)
    from recvConn_sessionInv [OF Cons.prems(1) Returned [unfolded x]] Cons.prems(2) Returned x
    show ?thesis by auto
  next
    case Blocked
    from remoteDo_sessionInv [OF Cons.prems(1), of e]
    obtain d1 where d1: "remoteDo e d = Returned d1" "sessionInv d1" by blast
    with Cons.prems(2) Blocked have "awaitRemoteConn d1 es = (out, d', evs')" by simp
    from Cons.IH [OF d1(2) this] show ?thesis by simp
  next
    case Panic
    then show ?thesis by (simp add: chan_recv_not_Panic)
  qed
qed

lemma awaitRemoteCloseWait_sessionInv:
  "sessionInv d \<Longrightarrow> awaitRemoteCloseWait d evs = (out, d', evs') \<Longrightarrow>
   sessionInv d' \<and> out \<noteq> Panic \<and> (out = Returned () \<longrightarrow> remoteCloseWait d' = 0)"
proof (induction evs arbitrary: d)
  case Nil
  then show ?case by (auto split: if_splits)
next
  case (Cons e es)
  show ?case
  proof (cases "remoteCloseWait d = 0")
    case True
    with Cons.prems show ?thesis by auto
  next
    case False
    from remoteDo_sessionInv [OF Cons.prems(1), of e]
    obtain d1 where d1: "remoteDo e d = Returned d1" "sessionInv d1" by blast
    with Cons.prems(2) False have "awaitRemoteCloseWait d1 es = (out, d', evs')" by simp
    from Cons.IH [OF d1(2) this] show ?thesis by simp
  qed
qed

lemma awaitRemoteCloseWait_controlFields:
  "awaitRemoteCloseWait d evs = (out, d', evs') \<Longrightarrow> controlFields d' = controlFields d"
proof (induction evs arbitrary: d)
  case Nil
  then show ?case by (auto split: if_splits)
next
  case (Cons e es)
  show ?case
  proof (cases "remoteCloseWait d = 0")
    case True
    with Cons.prems show ?thesis by auto
  next
    case False
    show ?thesis
    proof (cases "remoteDo e d")
      case (Returned d1)
      with Cons.prems False have "awaitRemoteCloseWait d1 es = (out, d', evs')" by simp
      from Cons.IH [OF this] remoteDo_controlFields [OF Returned] show ?thesis by simp
    next
      case Blocked
      with Cons.prems False show ?thesis by simp
    next
      case Panic
      with Cons.prems False show ?thesis by simp
    qed
  qed
qed

lemma sessionInv_remoteConn:
  "sessionInv d \<Longrightarrow> remoteTask d \<noteq> NotStarted \<Longrightarrow> sessionInv (d\<lparr>remoteConn := rc\<rparr>)"
  by (simp add: sessionInv_def credInv_def fpInv_def ctxInv_def taskInv_def)

lemma getRemote_sessionInv:
  assumes i: "sessionInv d" and g: "getRemote d evs = (out, d', evs')"
  shows "sessionInv d' \<and> out \<noteq> Panic
    \<and> (\<forall>rc. out = Returned (Inr rc) \<longrightarrow> isValid (remoteConn d'))
    \<and> (\<forall>e. out = Returned (Inl e) \<longrightarrow>
          \<not> isValid (remoteConn d') \<and> chClosed (remoteConnReceive d')
          \<and> chBuf (remoteConnReceive d') = [])
    \<and> controlFields (d'\<lparr>remoteConn := remoteConn d\<rparr>) = controlFields d"
proof (cases "isValid (remoteConn d)")
  case True
  with i g show ?thesis by (auto simp: getRemote_def)
next
  case False
  obtain o1 d1 e1 where a: "awaitRemoteConn d evs = (o1, d1, e1)"
    by (cases "awaitRemoteConn d evs")
  note s = awaitRemoteConn_sessionInv [OF i a]
  note c = awaitRemoteConn_controlFields [OF a]
  have rc: "remoteConn d1 = remoteConn d" using c by (simp add: controlFields_def)
  have cf: "controlFields (d1\<lparr>remoteConn := remoteConn d\<rparr>) = controlFields d"
    using c by (simp add: controlFields_def)
  show ?thesis
  proof (cases o1)
    case (Returned v)
    show ?thesis
    proof (cases v)
      case None
      with g False a Returned s cf rc show ?thesis
        by (auto simp: getRemote_def)
    next
      case (Some x)
      with s Returned have "sessionInv (d1\<lparr>remoteConn := x\<rparr>)" "isValid x"
        by (simp_all add: sessionInv_remoteConn)
      then show ?thesis using g False a Returned Some cf
        by (auto simp: getRemote_def)
    qed
  next
    case Blocked
    with g False a s cf rc show ?thesis by (auto simp: getRemote_def)
  next
    case Panic
    with s show ?thesis by simp
  qed
qed

lemma sameButRemote_refl [simp]: "sameButRemote d d"
  unfolding sameButRemote_def by (rule exI [of _ "rio d"], rule exI [of _ "dl d"]) simp

lemma sameButRemote_trans:
  "sameButRemote d d1 \<Longrightarrow> sameButRemote d1 d2 \<Longrightarrow> sameButRemote d d2"
proof -
  assume "sameButRemote d d1" "sameButRemote d1 d2"
  then obtain x y x' y' where "d1 = d\<lparr>rio := x, dl := y\<rparr>" "d2 = d1\<lparr>rio := x', dl := y'\<rparr>"
    unfolding sameButRemote_def by blast
  then have "d2 = d\<lparr>rio := x', dl := y'\<rparr>" by simp
  then show ?thesis unfolding sameButRemote_def by blast
qed

lemma sessionInv_rio_dl [simp]: "sessionInv (d\<lparr>rio := x, dl := y\<rparr>) = sessionInv d"
  by (simp add: sessionInv_def credInv_def fpInv_def ctxInv_def taskInv_def)

lemma sameButRemote_sessionInv:
  "sameButRemote d d' \<Longrightarrow> sessionInv d' = sessionInv d"
  unfolding sameButRemote_def by (erule exE, erule exE) simp

lemma sameButRemote_controlFields:
  "sameButRemote d d' \<Longrightarrow>
   controlFields (d'\<lparr>rio := rio d, dl := dl d\<rparr>) = controlFields d"
  unfolding sameButRemote_def by (erule exE, erule exE) (simp add: controlFields_def)

lemma advances_refl [simp]: "advances d d"
  by (simp add: advances_def)

lemma advances_trans: "advances d d1 \<Longrightarrow> advances d1 d2 \<Longrightarrow> advances d d2"
  by (auto simp: advances_def)

lemma controlFields_advances:
  "controlFields (d'\<lparr>remoteConn := rc, rio := x, dl := y\<rparr>) = controlFields (d\<lparr>remoteConn := rc, rio := x, dl := y\<rparr>)
   \<Longrightarrow> advances d d'"
  by (simp add: controlFields_def advances_def)

lemma getRemote_advances:
  "getRemote d evs = (out, d', evs') \<Longrightarrow> advances d d'"
proof (cases "isValid (remoteConn d)")
  case True
  assume "getRemote d evs = (out, d', evs')"
  with True show ?thesis by (simp add: getRemote_def)
next
  case False
  assume g: "getRemote d evs = (out, d', evs')"
  obtain o1 d1 e1 where a: "awaitRemoteConn d evs = (o1, d1, e1)"
    by (cases "awaitRemoteConn d evs")
  from awaitRemoteConn_controlFields [OF a] have "advances d d1"
    by (simp add: controlFields_def advances_def)
  moreover have "advances d1 d'"
    using g False a
    by (auto simp: getRemote_def advances_def split: outcome.splits option.splits)
  ultimately show ?thesis by (rule advances_trans)
qed

lemma sameButRemote_advances: "sameButRemote d d' \<Longrightarrow> advances d d'"
  unfolding sameButRemote_def by (erule exE, erule exE) (simp add: advances_def)

lemma sameButRemote_rio [simp]: "sameButRemote d (d\<lparr>rio := x\<rparr>)"
  unfolding sameButRemote_def by (rule exI [of _ x], rule exI [of _ "dl d"]) simp

lemma sameButRemote_dl [simp]: "sameButRemote d (d\<lparr>dl := y\<rparr>)"
  unfolding sameButRemote_def by (rule exI [of _ "rio d"], rule exI [of _ y]) simp

lemma remoteWrite_same: "remoteWrite d rData = (res, d') \<Longrightarrow> sameButRemote d d'"
  by (cases "writeResults (rio d)") (auto simp: remoteWrite_def)

lemma callCloser_same: "sameButRemote d (callCloser d)"
  by (simp add: callCloser_def)

lemma Debug_same: "sameButRemote d (Debug d m)"
  by (simp add: Debug_def)

lemma WindowChange_same: "WindowChange d rows cols = (res, d') \<Longrightarrow> sameButRemote d d'"
  by (cases "windowChangeResults (rio d)") (auto simp: WindowChange_def)

lemma stdInLoop_same: "stdInLoop d r = (out, d', r') \<Longrightarrow> sameButRemote d d'"
proof (induction d r rule: stdInLoop.induct)
  case (1 d r)
  show ?case
  proof (cases "Completed r")
    case True
    with "1.prems" show ?thesis by simp
  next
    case False
    show ?thesis
    proof (cases "Buffered r")
      case (Returned xr)
      obtain x r1 where xr: "xr = (x, r1)" by (cases xr)
      show ?thesis
      proof (cases x)
        case (Inl rErr)
        with "1.prems" False Returned xr show ?thesis by simp
      next
        case (Inr data)
        obtain res d1 where w: "remoteWrite d data = (res, d1)"
          by (cases "remoteWrite d data")
        note s1 = remoteWrite_same [OF w]
        show ?thesis
        proof (cases res)
          case None
          have "stdInLoop d1 r1 = (out, d', r')"
            using "1.prems" False Returned xr Inr w None by simp
          from "1.IH"(1) [OF False Returned xr [symmetric] Inr w [symmetric] None this] s1
          show ?thesis by (blast intro: sameButRemote_trans)
        next
          case (Some wErr)
          let ?d2 = "Debug (callCloser d1) (FailedToWriteDataToRemote wErr)"
          have "stdInLoop ?d2 r1 = (out, d', r')"
            using "1.prems" False Returned xr Inr w Some by simp
          from "1.IH"(2) [OF False Returned xr [symmetric] Inr w [symmetric] Some this]
          have "sameButRemote ?d2 d'" .
          moreover have "sameButRemote d ?d2"
            using s1 callCloser_same Debug_same by (blast intro: sameButRemote_trans)
          ultimately show ?thesis by (blast intro: sameButRemote_trans)
        qed
      qed
    next
      case Blocked
      with "1.prems" False show ?thesis by simp
    next
      case Panic
      with "1.prems" False show ?thesis by simp
    qed
  qed
qed

lemma okStep_trans: "okStep d d1 \<Longrightarrow> okStep d1 d2 \<Longrightarrow> okStep d d2"
  by (auto simp: okStep_def intro: advances_trans)

lemma okStep_same: "sessionInv d \<Longrightarrow> sameButRemote d d' \<Longrightarrow> okStep d d'"
  by (simp add: okStep_def sameButRemote_sessionInv sameButRemote_advances)

lemma getRemote_okStep:
  "sessionInv d \<Longrightarrow> getRemote d evs = (out, d', evs') \<Longrightarrow> okStep d d'"
  using getRemote_sessionInv getRemote_advances by (simp add: okStep_def)

lemma localStdIn_okStep:
  assumes "sessionInv d" "localStdIn d r evs = (out, d', r')"
  shows "okStep d d'"
proof -
  obtain o1 d1 e1 where g: "getRemote d evs = (o1, d1, e1)"
    by (cases "getRemote d evs")
  note s1 = getRemote_okStep [OF assms(1) g]
  show ?thesis
  proof (cases o1)
    case (Returned x)
    show ?thesis
    proof (cases x)
      case (Inl e)
      with assms(2) g Returned s1 show ?thesis by (simp add: localStdIn_def)
    next
      case (Inr rc)
      with assms(2) g Returned have "stdInLoop d1 r = (out, d', r')"
        by (simp add: localStdIn_def del: stdInLoop.simps)
      from stdInLoop_same [OF this] s1 show ?thesis
        by (meson okStep_def okStep_same okStep_trans)
    qed
  next
    case Blocked
    with assms(2) g s1 show ?thesis by (simp add: localStdIn_def)
  next
    case Panic
    with assms(2) g s1 show ?thesis by (simp add: localStdIn_def)
  qed
qed

lemma chanInv_processed: "chanInv p k c \<Longrightarrow> chanInv True k c"
  by (simp add: chanInv_def)

lemma chanInv_send:
  assumes "chanInv False k c"
  shows "\<exists>c'. chan_send c v = Returned c' \<and> chanInv True k c' \<and> chSent c' = [v]"
proof -
  from assms have f: "chSent c = []" "chBuf c = []" "\<not> k" "\<not> chClosed c" "chCap c = 1"
    "chCloses c = 0"
    by (simp_all add: chanInv_def)
  then have "chan_send c v = Returned (c\<lparr>chBuf := [v], chSent := [v]\<rparr>)"
    by (simp add: chan_send_def)
  moreover have "chanInv True k (c\<lparr>chBuf := [v], chSent := [v]\<rparr>)"
    using f by (simp add: chanInv_def)
  ultimately show ?thesis by simp
qed

lemma subInv_upd [simp]:
  "fpInv (d\<lparr>credentialProcessed := p\<rparr>) = fpInv d"
  "ctxInv (d\<lparr>credentialProcessed := p\<rparr>) = ctxInv d"
  "taskInv (d\<lparr>credentialProcessed := p\<rparr>) = taskInv d"
  "fpInv (d\<lparr>credentialReceive := c\<rparr>) = fpInv d"
  "ctxInv (d\<lparr>credentialReceive := c\<rparr>) = ctxInv d"
  "fpInv (d\<lparr>credentialReceiveClosed := k\<rparr>) = fpInv d"
  "ctxInv (d\<lparr>credentialReceiveClosed := k\<rparr>) = ctxInv d"
  "taskInv (d\<lparr>credentialReceiveClosed := k\<rparr>) = taskInv d"
  "credInv (d\<lparr>fingerprintProcessed := p\<rparr>) = credInv d"
  "ctxInv (d\<lparr>fingerprintProcessed := p\<rparr>) = ctxInv d"
  "taskInv (d\<lparr>fingerprintProcessed := p\<rparr>) = taskInv d"
  "credInv (d\<lparr>fingerprintVerifyResultReceive := c'\<rparr>) = credInv d"
  "ctxInv (d\<lparr>fingerprintVerifyResultReceive := c'\<rparr>) = ctxInv d"
  "credInv (d\<lparr>fingerprintVerifyResultReceiveClosed := k\<rparr>) = credInv d"
  "ctxInv (d\<lparr>fingerprintVerifyResultReceiveClosed := k\<rparr>) = ctxInv d"
  "taskInv (d\<lparr>fingerprintVerifyResultReceiveClosed := k\<rparr>) = taskInv d"
  by (simp_all add: credInv_def fpInv_def ctxInv_def taskInv_def)

lemma sessionInv_credentialProcessed:
  "sessionInv d \<Longrightarrow> sessionInv (d\<lparr>credentialProcessed := True\<rparr>)"
  by (auto simp: sessionInv_def credInv_def intro: chanInv_processed)

lemma sessionInv_fingerprintProcessed:
  "sessionInv d \<Longrightarrow> sessionInv (d\<lparr>fingerprintProcessed := True\<rparr>)"
  by (auto simp: sessionInv_def fpInv_def intro: chanInv_processed)

lemma sessionInv_credentialSend:
  assumes "sessionInv d" "\<not> credentialProcessed d"
  shows "\<exists>c. chan_send (credentialReceive (d\<lparr>credentialProcessed := True\<rparr>)) v = Returned c
    \<and> sessionInv (d\<lparr>credentialProcessed := True, credentialReceive := c\<rparr>) \<and> chSent c = [v]"
proof -
  from assms have "chanInv False (credentialReceiveClosed d) (credentialReceive d)"
    by (simp add: sessionInv_def credInv_def)
  from chanInv_send [OF this, of v] obtain c where c: "chan_send (credentialReceive d) v = Returned c"
    "chanInv True (credentialReceiveClosed d) c" "chSent c = [v]" by blast
  have "sessionInv (d\<lparr>credentialProcessed := True, credentialReceive := c\<rparr>)"
    using assms(1) c(2) by (simp add: sessionInv_def credInv_def)
  with c show ?thesis by simp
qed

lemma sessionInv_fingerprintSend:
  assumes "sessionInv d" "\<not> fingerprintProcessed d"
  shows "\<exists>c. chan_send (fingerprintVerifyResultReceive (d\<lparr>fingerprintProcessed := True\<rparr>)) v
      = Returned c
    \<and> sessionInv (d\<lparr>fingerprintProcessed := True, fingerprintVerifyResultReceive := c\<rparr>)
    \<and> chSent c = [v]"
proof -
  from assms have "chanInv False (fingerprintVerifyResultReceiveClosed d)
      (fingerprintVerifyResultReceive d)"
    by (simp add: sessionInv_def fpInv_def)
  from chanInv_send [OF this, of v] obtain c where
    c: "chan_send (fingerprintVerifyResultReceive d) v = Returned c"
    "chanInv True (fingerprintVerifyResultReceiveClosed d) c" "chSent c = [v]" by blast
  have "sessionInv (d\<lparr>fingerprintProcessed := True, fingerprintVerifyResultReceive := c\<rparr>)"
    using assms(1) c(2) by (simp add: sessionInv_def fpInv_def)
  with c show ?thesis by simp
qed

lemma localRespondCredential_cases:
  assumes "localRespondCredential d r = (out, d', r')"
  shows "(credentialProcessed d
          \<and> out = Returned (Some ErrSSHUnexpectedCredentialDataRespond) \<and> d' = d \<and> r' = r)
    \<or> (\<not> credentialProcessed d \<and> out \<noteq> Returned None
          \<and> d' = d\<lparr>credentialProcessed := True\<rparr>)
    \<or> (\<not> credentialProcessed d \<and> out = Returned None
          \<and> (\<exists>v c. chan_send (credentialReceive d) v = Returned c
                \<and> d' = d\<lparr>credentialProcessed := True, credentialReceive := c\<rparr>))"
proof (cases "credentialProcessed d")
  case True
  with assms show ?thesis by (simp add: localRespondCredential_def)
next
  case False
  let ?n = "if Remains r > sshCredentialMaxSize then sshCredentialMaxSize else Remains r"
  obtain o1 r1 where c: "credentialLoop r ?n 0 [] = (o1, r1)"
    by (cases "credentialLoop r ?n 0 []")
  have l: "(out, d', r') =
      (case (o1, r1) of
         (Blocked, r') \<Rightarrow> (Blocked, d\<lparr>credentialProcessed := True\<rparr>, r')
       | (Panic, r') \<Rightarrow> (Panic, d\<lparr>credentialProcessed := True\<rparr>, r')
       | (Returned (Inl rErr), r') \<Rightarrow> (Returned (Some rErr), d\<lparr>credentialProcessed := True\<rparr>, r')
       | (Returned (Inr credentialDataBuf), r') \<Rightarrow>
           (case chan_send (credentialReceive (d\<lparr>credentialProcessed := True\<rparr>)) credentialDataBuf of
              Blocked \<Rightarrow> (Blocked, d\<lparr>credentialProcessed := True\<rparr>, r')
            | Panic \<Rightarrow> (Panic, d\<lparr>credentialProcessed := True\<rparr>, r')
            | Returned c \<Rightarrow>
                (Returned None, d\<lparr>credentialProcessed := True, credentialReceive := c\<rparr>, r')))"
    using assms False c [symmetric]
    by (simp add: localRespondCredential_def Let_def del: credentialLoop.simps)
  show ?thesis
  proof (cases o1)
    case (Returned x)
    show ?thesis
    proof (cases x)
      case (Inl rErr)
      with l Returned False show ?thesis by simp
    next
      case (Inr buf)
      with l Returned False show ?thesis
        by (cases "chan_send (credentialReceive d) buf") auto
    qed
  next
    case Blocked
    with l False show ?thesis by simp
  next
    case Panic
    with l False show ?thesis by simp
  qed
qed

lemma localRespondCredential_okStep:
  assumes i: "sessionInv d" and l: "localRespondCredential d r = (out, d', r')"
  shows "okStep d d' \<and> credentialProcessed d'"
proof -
  from localRespondCredential_cases [OF l] show ?thesis
  proof (elim disjE conjE exE)
    assume "credentialProcessed d" "d' = d"
    with i show ?thesis by (simp add: okStep_def)
  next
    assume a: "\<not> credentialProcessed d" "d' = d\<lparr>credentialProcessed := True\<rparr>"
    with sessionInv_credentialProcessed [OF i] show ?thesis
      by (simp add: okStep_def advances_def)
  next
    fix v c
    assume a: "\<not> credentialProcessed d" "chan_send (credentialReceive d) v = Returned c"
      "d' = d\<lparr>credentialProcessed := True, credentialReceive := c\<rparr>"
    from sessionInv_credentialSend [OF i a(1), of v] a show ?thesis
      by (auto simp: okStep_def advances_def)
  qed
qed

lemma localRespondFingerprint_cases:
  assumes "localRespondFingerprint d r evs = (out, d', r')"
  shows "(fingerprintProcessed d
          \<and> out = Returned (Some ErrSSHUnexpectedFingerprintVerificationRespond)
          \<and> d' = d \<and> r' = r)
    \<or> (\<not> fingerprintProcessed d \<and> out \<noteq> Returned None
          \<and> d' = d\<lparr>fingerprintProcessed := True\<rparr>)
    \<or> (\<not> fingerprintProcessed d
          \<and> (\<exists>rData c. FetchOneByte r = Returned (Inr rData, r')
                \<and> chan_send (fingerprintVerifyResultReceive d) (rData ! 0 = 0) = Returned c
                \<and> (if rData ! 0 = 0
                    then out = Returned None
                      \<and> d' = d\<lparr>fingerprintProcessed := True,
                              fingerprintVerifyResultReceive := c\<rparr>
                    else (\<exists>o1 d3 e1.
                       getRemote (d\<lparr>fingerprintProcessed := True,
                                    fingerprintVerifyResultReceive := c\<rparr>) evs = (o1, d3, e1)
                       \<and> (d' = d3 \<or> d' = callCloser d3)))))"
proof (cases "fingerprintProcessed d")
  case True
  with assms show ?thesis by (simp add: localRespondFingerprint_def)
next
  case False
  let ?d1 = "d\<lparr>fingerprintProcessed := True\<rparr>"
  show ?thesis
  proof (cases "FetchOneByte r")
    case (Returned xr)
    obtain x r1 where xr: "xr = (x, r1)" by (cases xr)
    show ?thesis
    proof (cases x)
      case (Inl rErr)
      with assms False Returned xr show ?thesis
        by (auto simp: localRespondFingerprint_def simp del: FetchOneByte.simps)
    next
      case (Inr rData)
      note f = \<open>FetchOneByte r = Returned xr\<close> xr Inr
      show ?thesis
      proof (cases "rData ! 0 = 0")
        case True
        with assms False f show ?thesis
          by (cases "chan_send (fingerprintVerifyResultReceive d) True")
             (auto simp: localRespondFingerprint_def Let_def simp del: FetchOneByte.simps)
      next
        case nz: False
        show ?thesis
        proof (cases "chan_send (fingerprintVerifyResultReceive d) False")
          case (Returned c)
          let ?d2 = "d\<lparr>fingerprintProcessed := True, fingerprintVerifyResultReceive := c\<rparr>"
          obtain o1 d3 e1 where g: "getRemote ?d2 evs = (o1, d3, e1)"
            by (cases "getRemote ?d2 evs")
          have "r' = r1 \<and> (d' = d3 \<or> d' = callCloser d3)"
            using assms False f Returned nz g
            by (auto simp: localRespondFingerprint_def Let_def simp del: FetchOneByte.simps
                split: outcome.splits sum.splits)
          with False f Returned nz g show ?thesis
            by auto
        next
          case Blocked
          with assms False f nz show ?thesis
            by (auto simp: localRespondFingerprint_def Let_def simp del: FetchOneByte.simps)
        next
          case Panic
          with assms False f nz show ?thesis
            by (auto simp: localRespondFingerprint_def Let_def simp del: FetchOneByte.simps)
        qed
      qed
    qed
  next
    case Blocked
    with assms False show ?thesis
      by (auto simp: localRespondFingerprint_def simp del: FetchOneByte.simps)
  next
    case Panic
    with assms False show ?thesis
      by (auto simp: localRespondFingerprint_def simp del: FetchOneByte.simps)
  qed
qed

lemma localRespondFingerprint_okStep:
  assumes i: "sessionInv d" and l: "localRespondFingerprint d r evs = (out, d', r')"
  shows "okStep d d' \<and> fingerprintProcessed d'"
proof -
  from localRespondFingerprint_cases [OF l] show ?thesis
  proof (elim disjE conjE exE)
    assume "fingerprintProcessed d" "d' = d"
    with i show ?thesis by (simp add: okStep_def)
  next
    assume a: "\<not> fingerprintProcessed d" "d' = d\<lparr>fingerprintProcessed := True\<rparr>"
    with sessionInv_fingerprintProcessed [OF i] show ?thesis
      by (simp add: okStep_def advances_def)
  next
    fix rData c
    let ?d2 = "d\<lparr>fingerprintProcessed := True, fingerprintVerifyResultReceive := c\<rparr>"
    assume a: "\<not> fingerprintProcessed d"
      "chan_send (fingerprintVerifyResultReceive d) (rData ! 0 = 0) = Returned c"
      and b: "if rData ! 0 = 0
        then out = Returned None \<and> d' = ?d2
        else (\<exists>o1 d3 e1. getRemote ?d2 evs = (o1, d3, e1) \<and> (d' = d3 \<or> d' = callCloser d3))"
    from sessionInv_fingerprintSend [OF i a(1), of "rData ! 0 = 0"] a
    have s2: "sessionInv ?d2" by auto
    have ok2: "okStep d ?d2"
      using s2 a(1) by (simp add: okStep_def advances_def)
    show ?thesis
    proof (cases "rData ! 0 = 0")
      case True
      with b ok2 show ?thesis by simp
    next
      case False
      with b obtain o1 d3 e1 where g: "getRemote ?d2 evs = (o1, d3, e1)"
        and d': "d' = d3 \<or> d' = callCloser d3" by auto
      note ok3 = getRemote_okStep [OF s2 g]
      then have s3: "sessionInv d3" by (simp add: okStep_def)
      have f3: "fingerprintProcessed d3"
        using ok3 by (simp add: okStep_def advances_def)
      have "okStep d3 d'"
        using d' s3 callCloser_same [of d3] by (auto intro: okStep_same)
      moreover have "fingerprintProcessed d'"
        using d' f3 by (auto simp: callCloser_def)
      ultimately show ?thesis using ok2 ok3 by (blast intro: okStep_trans)
    qed
  qed
qed

lemma localResize_okStep:
  assumes i: "sessionInv d" and l: "localResize d r b evs = (out, d', r')"
  shows "okStep d d'"
proof -
  obtain o1 d1 e1 where g: "getRemote d evs = (o1, d1, e1)"
    by (cases "getRemote d evs")
  note ok1 = getRemote_okStep [OF i g]
  then have s1: "sessionInv d1" by (simp add: okStep_def)
  have "sameButRemote d1 d'"
  proof (cases "\<exists>rc. o1 = Returned (Inr rc) \<and> 4 \<le> length b")
    case False
    with l g show ?thesis
      by (auto simp: localResize_def split: outcome.splits sum.splits if_splits)
  next
    case True
    then obtain rc where o1: "o1 = Returned (Inr rc)" and b: "4 \<le> length b" by blast
    show ?thesis
    proof (cases "ReadFull r 4")
      case (Returned xr)
      obtain x r1 where xr: "xr = (x, r1)" by (cases xr)
      show ?thesis
      proof (cases x)
        case (Inl rErr)
        with l g o1 b Returned xr show ?thesis by (simp add: localResize_def)
      next
        case (Inr bytes)
        let ?b = "bytes @ drop 4 b"
        let ?rows = "push_bit 8 (uint (?b ! 0)) OR uint (?b ! 1)"
        let ?cols = "push_bit 8 (uint (?b ! 2)) OR uint (?b ! 3)"
        obtain res d2 where w: "WindowChange d1 ?rows ?cols = (res, d2)"
          by (cases "WindowChange d1 ?rows ?cols")
        note s = WindowChange_same [OF w]
        have "d' = d2 \<or> (\<exists>m. d' = Debug d2 m)"
          using l g o1 b Returned xr Inr w
          by (cases res) (auto simp: localResize_def Let_def)
        with s Debug_same show ?thesis by (blast intro: sameButRemote_trans)
      qed
    next
      case Blocked
      with l g o1 b show ?thesis by (simp add: localResize_def)
    next
      case Panic
      with l g o1 b show ?thesis by (simp add: localResize_def)
    qed
  qed
  from okStep_same [OF s1 this] ok1 show ?thesis by (rule okStep_trans [rotated])
qed

lemma local_okStep:
  assumes i: "sessionInv d" and l: "local d r h b evs = (out, d', r')"
  shows "okStep d d'"
proof -
  consider "local d r h b evs = localStdIn d r evs"
    | "local d r h b evs = localResize d r b evs"
    | "local d r h b evs = localRespondFingerprint d r evs"
    | "local d r h b evs = localRespondCredential d r"
    | "local d r h b evs = (Returned (Some ErrSSHUnknownClientSignal), d, r)"
    by (cases "h = SSHClientStdIn"; cases "h = SSHClientResize";
        cases "h = SSHClientRespondFingerprint"; cases "h = SSHClientRespondCredential")
       (simp_all add: local_def)
  then show ?thesis
  proof cases
    case 1
    with l localStdIn_okStep [OF i] show ?thesis by simp
  next
    case 2
    with l localResize_okStep [OF i] show ?thesis by simp
  next
    case 3
    with l localRespondFingerprint_okStep [OF i] show ?thesis by simp
  next
    case 4
    with l localRespondCredential_okStep [OF i] show ?thesis by simp
  next
    case 5
    with l i show ?thesis by (simp add: okStep_def)
  qed
qed

lemma sessionInv_newSSH: "sessionInv (newSSH w)"
  by (simp add: sessionInv_def credInv_def fpInv_def ctxInv_def taskInv_def chanInv_def
      newSSH_def make_chan_def isValid_def nilRemoteConn_def)

lemma Bootup_cases:
  "fst (snd (Bootup ps pa d r b)) = d
   \<or> (\<exists>a. fst (snd (Bootup ps pa d r b))
         = d\<lparr>remoteCloseWait := remoteCloseWait d + 1, remoteTask := Running,
             remoteArgs := Some a\<rparr>)"
  by (auto simp: Bootup_def simp del: FetchOneByte.simps
      split: outcome.splits sum.splits prod.splits)

lemma sessionInv_started:
  "sessionInv ((newSSH w)\<lparr>remoteCloseWait := remoteCloseWait (newSSH w) + 1,
     remoteTask := Running, remoteArgs := Some a\<rparr>)"
  by (simp add: sessionInv_def credInv_def fpInv_def ctxInv_def taskInv_def chanInv_def
      newSSH_def make_chan_def isValid_def nilRemoteConn_def)

lemma sessionInv_startSession: "sessionInv (startSession w boot)"
proof (cases boot)
  case None
  then show ?thesis by (simp add: startSession_def sessionInv_newSSH)
next
  case (Some x)
  obtain ps pa r b where x: "x = (ps, pa, r, b)" by (cases x)
  from Bootup_cases [of ps pa "newSSH w" r b] show ?thesis
    using Some x sessionInv_newSSH [of w] sessionInv_started [where w = w]
    by (auto simp: startSession_def)
qed

lemma fresh_startSession:
  "chSent (credentialReceive (startSession w boot)) = []
   \<and> chSent (fingerprintVerifyResultReceive (startSession w boot)) = []
   \<and> \<not> credentialProcessed (startSession w boot)
   \<and> \<not> fingerprintProcessed (startSession w boot)"
proof (cases boot)
  case None
  then show ?thesis by (simp add: startSession_def newSSH_def make_chan_def)
next
  case (Some x)
  obtain ps pa r b where x: "x = (ps, pa, r, b)" by (cases x)
  from Bootup_cases [of ps pa "newSSH w" r b] show ?thesis
    using Some x by (auto simp: startSession_def newSSH_def make_chan_def)
qed

lemma callBaseCtxCancel_okStep:
  assumes "sessionInv d"
  shows "okStep d (callBaseCtxCancel d)"
proof (cases "baseCtxCancel d")
  case True
  with assms show ?thesis by (simp add: callBaseCtxCancel_def okStep_def)
next
  case False
  have "sessionInv (d\<lparr>baseCtxCancel := True, baseCtx := True, ctxCancels := Suc (ctxCancels d)\<rparr>)"
    using assms False
    by (simp add: sessionInv_def credInv_def fpInv_def ctxInv_def taskInv_def)
  with False show ?thesis by (simp add: callBaseCtxCancel_def okStep_def advances_def)
qed

lemma remoteDo_okStep:
  assumes "sessionInv d"
  shows "\<exists>d'. remoteDo e d = Returned d' \<and> okStep d d'"
proof -
  from remoteDo_sessionInv [OF assms, of e]
  obtain d' where d': "remoteDo e d = Returned d'" "sessionInv d'" by blast
  from remoteDo_controlFields [OF d'(1)] have "advances d d'"
    by (simp add: controlFields_def advances_def)
  with d' show ?thesis by (auto simp: okStep_def)
qed

lemma runRemote_okStep: "sessionInv d \<Longrightarrow> okStep d (runRemote es d)"
proof (induction es arbitrary: d)
  case Nil
  then show ?case by (simp add: okStep_def)
next
  case (Cons e es)
  from remoteDo_okStep [OF Cons.prems, of e]
  obtain d1 where d1: "remoteDo e d = Returned d1" "okStep d d1" by blast
  then have "sessionInv d1" by (simp add: okStep_def)
  from Cons.IH [OF this] d1 show ?case by (auto intro: okStep_trans)
qed

end
